theory Spec2Isabelle
  imports Main
begin

section \<open>Data model\<close>

text \<open>
  The reservation core of the cafe booking backend: the availability service
  (\<^verbatim>\<open>app/services/availability_service.py\<close>), the booking repository
  (\<^verbatim>\<open>app/repositories/booking.py\<close>) and the rows they read and write
  (\<^verbatim>\<open>app/models\<close>). A UUID is a natural number; a date is its ordinal, so that
  \<open><\<close> on dates is \<open><\<close> on numbers.
\<close>

type_synonym uuid = nat
type_synonym date = nat

datatype BookingStatus = CONFIRMED | CANCELED | DONE

text \<open>
  Rows are kept in maps from the primary key \<open>id\<close> to the other columns, so that the
  primary key is unique by construction. Only the columns that the reservation code reads
  or writes are kept (\<open>created_at\<close>, \<open>updated_at\<close>, descriptions and slot times
  carry no logic here).
\<close>

record Table =
  t_cafe_id :: uuid
  seat_number :: int
  t_is_active :: bool

record Slot =
  s_cafe_id :: uuid
  s_is_active :: bool

record Booking =
  user_id :: uuid
  b_cafe_id :: uuid
  b_booking_date :: date
  b_guest_number :: int
  b_status :: BookingStatus
  b_note :: "string option"
  b_is_active :: bool

record ReservationUnit =
  booking_id :: uuid
  cafe_id :: uuid
  table_id :: uuid
  slot_id :: uuid
  booking_date :: date

text \<open>
  The database. \<open>users\<close> and \<open>cafes\<close> are the sets of existing primary keys (no column
  of theirs is read by the reservation code); \<open>units\<close> is the \<open>reservationunit\<close> table in
  insertion order.
\<close>

record store =
  users :: "uuid set"
  cafes :: "uuid set"
  tables :: "uuid \<rightharpoonup> Table"
  slots :: "uuid \<rightharpoonup> Slot"
  bookings :: "uuid \<rightharpoonup> Booking"
  units :: "ReservationUnit list"

text \<open>
  A loaded \<open>Booking\<close> object: its primary key, its columns, and the two view-only
  relationships \<open>tables\<close> and \<open>slots\<close> (loaded through \<open>reservationunit\<close>), as lists
  of ids.
\<close>

record BookingObj =
  obj_id :: uuid
  row :: Booking
  obj_tables :: "uuid list"
  obj_slots :: "uuid list"

text \<open>The request schemas of \<^verbatim>\<open>app/schemas/booking.py\<close>.\<close>

record BookingCreate =
  c_guest_number :: int
  c_note :: "string option"
  c_status :: BookingStatus
  c_booking_date :: date
  c_cafe_id :: uuid
  c_tables_id :: "uuid list"
  c_slots_id :: "uuid list"

text \<open>
  Every field of \<open>BookingUpdate\<close> is optional with default \<open>None\<close>, and
  \<open>model_dump(exclude_unset=True)\<close> tells a field that the request did not mention
  (\<open>None\<close> here) from one that it set, possibly to \<open>null\<close> (\<open>Some None\<close>) or to a
  value (\<open>Some (Some v)\<close>). For \<open>tables_id\<close> and \<open>slots_id\<close> the code only reads the
  attribute, where unset and \<open>null\<close> are both Python's \<open>None\<close>.
\<close>

record BookingUpdate =
  u_cafe_id :: "uuid option option"
  u_tables_id :: "uuid list option"
  u_slots_id :: "uuid list option"
  u_guest_number :: "int option option"
  u_note :: "string option option"
  u_status :: "BookingStatus option option"
  u_booking_date :: "date option option"
  u_is_active :: "bool option option"

text \<open>
  Errors. Every validation failure of the repository is a Python \<open>ValueError\<close> with a
  message; the other three are what the ORM and the interpreter raise.
\<close>

datatype reason =
    CafeNotFound
  | PastDate
  | NoTables
  | NoSlots
  | TablesUnavailable
  | SlotsUnavailable
  | NotEnoughSeats int int
  | Occupied
  | PastBooking
  | DoneBooking

datatype error =
    ValueError reason
  | TypeError
  | IntegrityError
  | MultipleResultsFound

section \<open>Availability service\<close>

text \<open>\<open>validate_booking_date\<close>: \<open>booking_date >= date.today()\<close>.\<close>

definition validate_booking_date :: "date \<Rightarrow> date \<Rightarrow> bool" where
  "validate_booking_date today d = (d \<ge> today)"

text \<open>
  \<open>select(Table).where(Table.id.in_(ids))\<close>: one row for each id that exists, each row
  once. SQL leaves the order open; the model takes the order of the request.
\<close>

definition select_tables :: "store \<Rightarrow> uuid list \<Rightarrow> (uuid \<times> Table) list" where
  "select_tables s ids =
     List.map_filter (\<lambda>i. map_option (Pair i) (tables s i)) (remdups ids)"

definition select_slots :: "store \<Rightarrow> uuid list \<Rightarrow> (uuid \<times> Slot) list" where
  "select_slots s ids =
     List.map_filter (\<lambda>i. map_option (Pair i) (slots s i)) (remdups ids)"

definition total_seats :: "(uuid \<times> Table) list \<Rightarrow> int" where
  "total_seats ts = sum_list (map (\<lambda>t. seat_number (snd t)) ts)"

definition validate_tables_capacity :: "store \<Rightarrow> uuid list \<Rightarrow> int \<Rightarrow> bool" where
  "validate_tables_capacity s tables_ids guest_number =
     (let ts = select_tables s tables_ids in
      if ts = [] then False
      else total_seats ts \<ge> guest_number)"

text \<open>
  The query of \<open>check_tables_availability\<close> for one (table, slot) pair: the units with
  that table, slot and date, joined with their booking, where the booking is not CANCELED,
  is active and, when \<open>exclude_booking_id\<close> is given, is another booking. (A UUID is
  never false in Python, so \<open>if exclude_booking_id\<close> asks whether it is \<open>None\<close>. The
  argument \<open>cafe_id\<close> is not read by the query.)
\<close>

definition blocking :: "store \<Rightarrow> uuid option \<Rightarrow> ReservationUnit \<Rightarrow> bool" where
  "blocking s exclude_booking_id u =
     (case bookings s (booking_id u) of
        None \<Rightarrow> False
      | Some b \<Rightarrow> b_status b \<noteq> CANCELED \<and> b_is_active b \<and>
          (case exclude_booking_id of None \<Rightarrow> True | Some e \<Rightarrow> booking_id u \<noteq> e))"

definition existing_units ::
  "store \<Rightarrow> uuid \<Rightarrow> uuid \<Rightarrow> date \<Rightarrow> uuid option \<Rightarrow> ReservationUnit list" where
  "existing_units s t sl d exclude_booking_id =
     filter (\<lambda>u. table_id u = t \<and> slot_id u = sl \<and> booking_date u = d \<and>
                 blocking s exclude_booking_id u) (units s)"

text \<open>\<open>scalar_one_or_none\<close> raises when the query has more than one row.\<close>

fun scalar_one_or_none :: "'a list \<Rightarrow> error + 'a option" where
  "scalar_one_or_none [] = Inr None"
| "scalar_one_or_none [x] = Inr (Some x)"
| "scalar_one_or_none (x # y # zs) = Inl MultipleResultsFound"

text \<open>
  The inner loop over the slots for one table, and the outer loop over the tables. \<open>Inr
  False\<close> is the early \<open>return False\<close>; \<open>Inr True\<close> is the loop running to its end.
\<close>

fun check_slots ::
  "store \<Rightarrow> uuid \<Rightarrow> uuid list \<Rightarrow> date \<Rightarrow> uuid option \<Rightarrow> error + bool" where
  "check_slots s t [] d ex = Inr True"
| "check_slots s t (sl # sls) d ex =
     (case scalar_one_or_none (existing_units s t sl d ex) of
        Inl e \<Rightarrow> Inl e
      | Inr (Some u) \<Rightarrow> Inr False
      | Inr None \<Rightarrow> check_slots s t sls d ex)"

fun check_tables_availability ::
  "store \<Rightarrow> uuid \<Rightarrow> uuid list \<Rightarrow> uuid list \<Rightarrow> date \<Rightarrow> uuid option \<Rightarrow> error + bool" where
  "check_tables_availability s cafe [] slots_ids d ex = Inr True"
| "check_tables_availability s cafe (t # ts) slots_ids d ex =
     (case check_slots s t slots_ids d ex of
        Inl e \<Rightarrow> Inl e
      | Inr False \<Rightarrow> Inr False
      | Inr True \<Rightarrow> check_tables_availability s cafe ts slots_ids d ex)"

section \<open>Booking repository\<close>

text \<open>
  \<open>_validate_relations\<close>: both lists non-empty, and as many distinct ids of active tables
  (slots) of the cafe among the requested ones as there are distinct requested ids.
\<close>

definition table_ok :: "store \<Rightarrow> uuid \<Rightarrow> uuid \<Rightarrow> bool" where
  "table_ok s cafe i =
     (case tables s i of None \<Rightarrow> False | Some t \<Rightarrow> t_cafe_id t = cafe \<and> t_is_active t)"

definition slot_ok :: "store \<Rightarrow> uuid \<Rightarrow> uuid \<Rightarrow> bool" where
  "slot_ok s cafe i =
     (case slots s i of None \<Rightarrow> False | Some sl \<Rightarrow> s_cafe_id sl = cafe \<and> s_is_active sl)"

definition validate_relations ::
  "store \<Rightarrow> uuid \<Rightarrow> uuid list \<Rightarrow> uuid list \<Rightarrow> error + unit" where
  "validate_relations s cafe tables_ids slots_ids =
     (if tables_ids = [] then Inl (ValueError NoTables)
      else if slots_ids = [] then Inl (ValueError NoSlots)
      else if length (remdups (filter (table_ok s cafe) tables_ids))
              \<noteq> length (remdups tables_ids)
        then Inl (ValueError TablesUnavailable)
      else if length (remdups (filter (slot_ok s cafe) slots_ids))
              \<noteq> length (remdups slots_ids)
        then Inl (ValueError SlotsUnavailable)
      else Inr ())"

text \<open>
  The unique constraint \<open>uq_reservation_atom\<close> on (table_id, slot_id, booking_date), and
  the INSERTs of a flush: each new row is checked against the rows that are there,
  the ones inserted just before it included.
\<close>

definition atom :: "ReservationUnit \<Rightarrow> uuid \<times> uuid \<times> date" where
  "atom u = (table_id u, slot_id u, booking_date u)"

definition uq_reservation_atom :: "ReservationUnit list \<Rightarrow> bool" where
  "uq_reservation_atom us = distinct (map atom us)"

fun insert_units :: "ReservationUnit list \<Rightarrow> ReservationUnit list \<Rightarrow> error + ReservationUnit list" where
  "insert_units us [] = Inr us"
| "insert_units us (u # new) =
     (if atom u \<in> set (map atom us) then Inl IntegrityError
      else insert_units (us @ [u]) new)"

text \<open>
  \<open>session.refresh(db_obj)\<close>: the object of a row with its relationships read again
  through \<open>reservationunit\<close> (each table and slot once).
\<close>

definition refresh :: "store \<Rightarrow> uuid \<Rightarrow> Booking \<Rightarrow> BookingObj" where
  "refresh s i r =
     \<lparr> obj_id = i, row = r,
       obj_tables = remdups (map table_id
          (filter (\<lambda>u. booking_id u = i \<and> tables s (table_id u) \<noteq> None) (units s))),
       obj_slots = remdups (map slot_id
          (filter (\<lambda>u. booking_id u = i \<and> slots s (slot_id u) \<noteq> None) (units s))) \<rparr>"

definition get_with_relations :: "store \<Rightarrow> uuid \<Rightarrow> BookingObj option" where
  "get_with_relations s i = map_option (refresh s i) (bookings s i)"

text \<open>
  \<open>create_with_validation\<close>. \<open>today\<close> is \<open>date.today()\<close> and \<open>new_id\<close> the id that
  \<open>gen_random_uuid()\<close> gives the new booking row. The second component of the result is
  the database when the request is over: changes reach it at \<open>session.commit()\<close> only,
  and a raise before that leaves it as it was (the session of \<^verbatim>\<open>app/core/db.py\<close> is
  closed without a commit, which rolls the transaction back).
\<close>

definition new_units ::
  "uuid \<Rightarrow> uuid \<Rightarrow> date \<Rightarrow> uuid list \<Rightarrow> uuid list \<Rightarrow> ReservationUnit list" where
  "new_units b cafe d table_ids slot_ids =
     concat (map (\<lambda>t. map (\<lambda>sl.
        \<lparr> booking_id = b, cafe_id = cafe, table_id = t, slot_id = sl, booking_date = d \<rparr>)
        slot_ids) table_ids)"

definition create_with_validation ::
  "date \<Rightarrow> uuid \<Rightarrow> store \<Rightarrow> BookingCreate \<Rightarrow> uuid \<Rightarrow> (error + BookingObj) \<times> store" where
  "create_with_validation today new_id s obj_in uid =
     (if c_cafe_id obj_in \<notin> cafes s then (Inl (ValueError CafeNotFound), s)
      else if \<not> validate_booking_date today (c_booking_date obj_in)
        then (Inl (ValueError PastDate), s)
      else case validate_relations s (c_cafe_id obj_in) (c_tables_id obj_in) (c_slots_id obj_in) of
        Inl e \<Rightarrow> (Inl e, s)
      | Inr _ \<Rightarrow>
         (let ts = select_tables s (c_tables_id obj_in);
              sls = select_slots s (c_slots_id obj_in)
          in if \<not> validate_tables_capacity s (c_tables_id obj_in) (c_guest_number obj_in)
             then (Inl (ValueError (NotEnoughSeats (c_guest_number obj_in) (total_seats ts))), s)
             else case check_tables_availability s (c_cafe_id obj_in) (c_tables_id obj_in)
                          (c_slots_id obj_in) (c_booking_date obj_in) None of
               Inl e \<Rightarrow> (Inl e, s)
             | Inr False \<Rightarrow> (Inl (ValueError Occupied), s)
             | Inr True \<Rightarrow>
                (let db_row = \<lparr> user_id = uid, b_cafe_id = c_cafe_id obj_in,
                                b_booking_date = c_booking_date obj_in,
                                b_guest_number = c_guest_number obj_in,
                                b_status = c_status obj_in, b_note = c_note obj_in,
                                b_is_active = True \<rparr>
                 in if bookings s new_id \<noteq> None \<or> uid \<notin> users s
                    then (Inl IntegrityError, s)
                    else case insert_units (units s)
                                (new_units new_id (c_cafe_id obj_in) (c_booking_date obj_in)
                                   (map fst ts) (map fst sls)) of
                      Inl e \<Rightarrow> (Inl e, s)
                    | Inr us \<Rightarrow>
                       (let s' = s\<lparr> bookings := (bookings s)(new_id \<mapsto> db_row), units := us \<rparr>
                        in (Inr (refresh s' new_id db_row), s')))))"

text \<open>
  \<open>update_with_validation\<close>. \<open>attr f\<close> is the attribute \<open>obj_in.f\<close>, which is \<open>None\<close>
  for a field that was not set. The loop over \<open>update_data\<close> sets every field that the
  request set (\<open>tables_id\<close> and \<open>slots_id\<close> are excluded from \<open>update_data\<close>).
  \<open>note\<close> is nullable; setting one of the other columns to \<open>null\<close> leaves \<open>None\<close> in a
  column that is NOT NULL, which the next flush refuses (\<open>null_in_not_null\<close>), so
  \<open>setattrs\<close> is only read where there is no such field.
\<close>

definition attr :: "'a option option \<Rightarrow> 'a option" where
  "attr f = (case f of None \<Rightarrow> None | Some v \<Rightarrow> v)"

definition setattrs :: "Booking \<Rightarrow> BookingUpdate \<Rightarrow> Booking" where
  "setattrs r obj_in =
     r\<lparr> b_cafe_id := (case attr (u_cafe_id obj_in) of None \<Rightarrow> b_cafe_id r | Some v \<Rightarrow> v),
        b_guest_number :=
          (case attr (u_guest_number obj_in) of None \<Rightarrow> b_guest_number r | Some v \<Rightarrow> v),
        b_note := (case u_note obj_in of None \<Rightarrow> b_note r | Some v \<Rightarrow> v),
        b_status := (case attr (u_status obj_in) of None \<Rightarrow> b_status r | Some v \<Rightarrow> v),
        b_booking_date :=
          (case attr (u_booking_date obj_in) of None \<Rightarrow> b_booking_date r | Some v \<Rightarrow> v),
        b_is_active :=
          (case attr (u_is_active obj_in) of None \<Rightarrow> b_is_active r | Some v \<Rightarrow> v) \<rparr>"

definition null_in_not_null :: "BookingUpdate \<Rightarrow> bool" where
  "null_in_not_null obj_in =
     (u_cafe_id obj_in = Some None \<or> u_guest_number obj_in = Some None \<or>
      u_status obj_in = Some None \<or> u_is_active obj_in = Some None)"

text \<open>
  The UPDATE of the booking row at a flush. It fails on a \<open>null\<close> in a NOT NULL column
  and on a changed \<open>cafe_id\<close> that is no cafe (the foreign key to \<open>cafe.id\<close>). The object
  is the session's own object of its row, so the row after the UPDATE is the object's.
\<close>

definition flush_booking :: "store \<Rightarrow> BookingObj \<Rightarrow> BookingUpdate \<Rightarrow> error + store" where
  "flush_booking s db_obj obj_in =
     (if null_in_not_null obj_in then Inl IntegrityError
      else if (case attr (u_cafe_id obj_in) of
                 None \<Rightarrow> False
               | Some c \<Rightarrow> c \<noteq> b_cafe_id (row db_obj) \<and> c \<notin> cafes s)
        then Inl IntegrityError
      else Inr (s\<lparr> bookings := (bookings s)(obj_id db_obj \<mapsto> setattrs (row db_obj) obj_in) \<rparr>))"

text \<open>\<open>xs or ys\<close> on Python lists: \<open>None\<close> and the empty list are both false.\<close>

definition list_or :: "'a list option \<Rightarrow> 'a list \<Rightarrow> 'a list" where
  "list_or xs ys = (case xs of None \<Rightarrow> ys | Some [] \<Rightarrow> ys | Some (z # zs) \<Rightarrow> z # zs)"

text \<open>
  The check of a \<open>booking_date\<close> in \<open>update_data\<close>: \<open>None >= date.today()\<close> is a
  \<open>TypeError\<close>.
\<close>

definition check_update_date :: "date \<Rightarrow> BookingUpdate \<Rightarrow> error + unit" where
  "check_update_date today obj_in =
     (case u_booking_date obj_in of
        None \<Rightarrow> Inr ()
      | Some None \<Rightarrow> Inl TypeError
      | Some (Some d) \<Rightarrow>
          if \<not> validate_booking_date today d then Inl (ValueError PastDate) else Inr ())"

text \<open>
  The session flushes the changed booking row before the DELETE statement runs
  (autoflush) or, when the selection is not touched, at the commit.
\<close>

definition update_with_validation ::
  "date \<Rightarrow> store \<Rightarrow> BookingObj \<Rightarrow> BookingUpdate \<Rightarrow> (error + BookingObj) \<times> store" where
  "update_with_validation today s db_obj obj_in =
     (if b_booking_date (row db_obj) < today then (Inl (ValueError PastBooking), s)
      else if b_status (row db_obj) = DONE then (Inl (ValueError DoneBooking), s)
      else case check_update_date today obj_in of
        Inl e \<Rightarrow> (Inl e, s)
      | Inr _ \<Rightarrow>
         (let r = setattrs (row db_obj) obj_in
          in if u_tables_id obj_in \<noteq> None \<or> u_slots_id obj_in \<noteq> None
             then (case flush_booking s db_obj obj_in of
                Inl e \<Rightarrow> (Inl e, s)
              | Inr s1 \<Rightarrow>
                 (let s2 = s1\<lparr> units := filter (\<lambda>u. booking_id u \<noteq> obj_id db_obj) (units s1) \<rparr>;
                      target_cafe_id =
                        (case attr (u_cafe_id obj_in) of None \<Rightarrow> b_cafe_id r | Some c \<Rightarrow> c);
                      target_booking_date =
                        (case attr (u_booking_date obj_in) of None \<Rightarrow> b_booking_date r | Some d \<Rightarrow> d);
                      target_tables_ids = list_or (u_tables_id obj_in) (obj_tables db_obj);
                      target_slots_ids = list_or (u_slots_id obj_in) (obj_slots db_obj)
                  in case validate_relations s2 target_cafe_id target_tables_ids target_slots_ids of
                    Inl e \<Rightarrow> (Inl e, s)
                  | Inr _ \<Rightarrow>
                     (case insert_units (units s2)
                             (new_units (obj_id db_obj) target_cafe_id target_booking_date
                                target_tables_ids target_slots_ids) of
                        Inl e \<Rightarrow> (Inl e, s)
                      | Inr us \<Rightarrow>
                         (let s3 = s2\<lparr> units := us \<rparr>
                          in (Inr (refresh s3 (obj_id db_obj) r), s3)))))
             else (case flush_booking s db_obj obj_in of
                Inl e \<Rightarrow> (Inl e, s)
              | Inr s1 \<Rightarrow> (Inr (refresh s1 (obj_id db_obj) r), s1))))"

section \<open>Reachable states and the invariants\<close>

text \<open>
  A unit holds its table and slot when its booking is active and not CANCELED. Two
  units of two bookings clash when both hold the same (table, slot, date).
\<close>

definition holds :: "store \<Rightarrow> ReservationUnit \<Rightarrow> bool" where
  "holds s u =
     (case bookings s (booking_id u) of
        None \<Rightarrow> False
      | Some b \<Rightarrow> b_is_active b \<and> b_status b \<noteq> CANCELED)"

definition clash :: "store \<Rightarrow> ReservationUnit \<Rightarrow> ReservationUnit \<Rightarrow> bool" where
  "clash s u v =
     (atom u = atom v \<and> booking_id u \<noteq> booking_id v \<and> holds s u \<and> holds s v)"

definition no_double_booking :: "store \<Rightarrow> bool" where
  "no_double_booking s = (\<forall>u \<in> set (units s). \<forall>v \<in> set (units s). \<not> clash s u v)"

inductive reachable :: "store \<Rightarrow> store \<Rightarrow> bool" for s0 :: store where
  start: "reachable s0 s0"
| create: "reachable s0 s \<Longrightarrow>
     reachable s0 (snd (create_with_validation today new_id s obj_in uid))"
| update: "reachable s0 s \<Longrightarrow>
     reachable s0 (snd (update_with_validation today s db_obj obj_in))"

section \<open>Names for parts of the two operations\<close>

text \<open>The booking row that \<open>create_with_validation\<close> builds from the request.\<close>

definition db_row :: "BookingCreate \<Rightarrow> uuid \<Rightarrow> Booking" where
  "db_row obj_in uid =
     \<lparr> user_id = uid, b_cafe_id = c_cafe_id obj_in,
       b_booking_date = c_booking_date obj_in,
       b_guest_number = c_guest_number obj_in,
       b_status = c_status obj_in, b_note = c_note obj_in,
       b_is_active = True \<rparr>"

text \<open>
  The targets of the re-materialisation in \<open>update_with_validation\<close>, the units it
  inserts, the units of the other bookings, and the database with the booking row
  written.
\<close>

definition target_cafe_id :: "BookingObj \<Rightarrow> BookingUpdate \<Rightarrow> uuid" where
  "target_cafe_id db_obj obj_in =
     (case attr (u_cafe_id obj_in) of None \<Rightarrow> b_cafe_id (row db_obj) | Some c \<Rightarrow> c)"

definition target_booking_date :: "BookingObj \<Rightarrow> BookingUpdate \<Rightarrow> date" where
  "target_booking_date db_obj obj_in =
     (case attr (u_booking_date obj_in) of None \<Rightarrow> b_booking_date (row db_obj) | Some d \<Rightarrow> d)"

definition target_tables_ids :: "BookingObj \<Rightarrow> BookingUpdate \<Rightarrow> uuid list" where
  "target_tables_ids db_obj obj_in = list_or (u_tables_id obj_in) (obj_tables db_obj)"

definition target_slots_ids :: "BookingObj \<Rightarrow> BookingUpdate \<Rightarrow> uuid list" where
  "target_slots_ids db_obj obj_in = list_or (u_slots_id obj_in) (obj_slots db_obj)"

definition fresh_units :: "BookingObj \<Rightarrow> BookingUpdate \<Rightarrow> ReservationUnit list" where
  "fresh_units db_obj obj_in =
     new_units (obj_id db_obj) (target_cafe_id db_obj obj_in) (target_booking_date db_obj obj_in)
       (target_tables_ids db_obj obj_in) (target_slots_ids db_obj obj_in)"

definition others :: "BookingObj \<Rightarrow> store \<Rightarrow> ReservationUnit list" where
  "others db_obj s = filter (\<lambda>u. booking_id u \<noteq> obj_id db_obj) (units s)"

definition written :: "store \<Rightarrow> BookingObj \<Rightarrow> BookingUpdate \<Rightarrow> store" where
  "written s db_obj obj_in =
     s\<lparr> bookings := (bookings s)(obj_id db_obj \<mapsto> setattrs (row db_obj) obj_in) \<rparr>"

definition pair_of :: "ReservationUnit \<Rightarrow> uuid \<times> uuid" where
  "pair_of u = (table_id u, slot_id u)"

section \<open>The specification's words\<close>

text \<open>
  What the specification says, in its own terms, to be compared with the code above.
  A unit conflicts with a request for (table, slot, date) when it has that table, slot
  and date and its booking is active, not CANCELED and not the excluded one.
\<close>

definition conflicting_unit :: "store \<Rightarrow> uuid option \<Rightarrow> uuid \<Rightarrow> uuid \<Rightarrow> date \<Rightarrow> bool" where
  "conflicting_unit s ex t sl d =
     (\<exists>u \<in> set (units s). table_id u = t \<and> slot_id u = sl \<and> booking_date u = d \<and>
        holds s u \<and> (case ex of None \<Rightarrow> True | Some e \<Rightarrow> booking_id u \<noteq> e))"

text \<open>The tables that a list of ids resolves to, and their seats.\<close>

definition resolved :: "store \<Rightarrow> uuid list \<Rightarrow> uuid set" where
  "resolved s ids = set (filter (\<lambda>i. tables s i \<noteq> None) ids)"

definition seats_of :: "store \<Rightarrow> uuid set \<Rightarrow> int" where
  "seats_of s A = (\<Sum>i \<in> A. case tables s i of None \<Rightarrow> 0 | Some t \<Rightarrow> seat_number t)"

text \<open>The first check of the creation contract that a request fails, in the contract's order.\<close>

definition first_failed_check :: "date \<Rightarrow> store \<Rightarrow> BookingCreate \<Rightarrow> reason option" where
  "first_failed_check today s obj_in =
     (if c_cafe_id obj_in \<notin> cafes s then Some CafeNotFound
      else if c_booking_date obj_in < today then Some PastDate
      else if c_tables_id obj_in = [] then Some NoTables
      else if c_slots_id obj_in = [] then Some NoSlots
      else if \<exists>i \<in> set (c_tables_id obj_in). \<not> table_ok s (c_cafe_id obj_in) i
        then Some TablesUnavailable
      else if \<exists>i \<in> set (c_slots_id obj_in). \<not> slot_ok s (c_cafe_id obj_in) i
        then Some SlotsUnavailable
      else if seats_of s (set (c_tables_id obj_in)) < c_guest_number obj_in
        then Some (NotEnoughSeats (c_guest_number obj_in) (seats_of s (set (c_tables_id obj_in))))
      else if \<exists>t \<in> set (c_tables_id obj_in). \<exists>sl \<in> set (c_slots_id obj_in).
                conflicting_unit s None t sl (c_booking_date obj_in)
        then Some Occupied
      else None)"

section \<open>A small cafe\<close>

text \<open>
  Cafe 1 with tables 1 (two seats) and 2 (three seats) and slots 1 and 2; users 7 and 8;
  booking 10 of user 7 holds table 1 in slot 1 on day 100. Today is day 50.
\<close>

definition ex_b1 :: Booking where
  "ex_b1 = \<lparr> user_id = 7, b_cafe_id = 1, b_booking_date = 100, b_guest_number = 2,
             b_status = CONFIRMED, b_note = None, b_is_active = True \<rparr>"

definition ex_unit :: ReservationUnit where
  "ex_unit = \<lparr> booking_id = 10, cafe_id = 1, table_id = 1, slot_id = 1, booking_date = 100 \<rparr>"

definition ex_store :: store where
  "ex_store =
     \<lparr> users = {7, 8}, cafes = {1},
       tables = [1 \<mapsto> \<lparr> t_cafe_id = 1, seat_number = 2, t_is_active = True \<rparr>,
                 2 \<mapsto> \<lparr> t_cafe_id = 1, seat_number = 3, t_is_active = True \<rparr>],
       slots = [1 \<mapsto> \<lparr> s_cafe_id = 1, s_is_active = True \<rparr>,
                2 \<mapsto> \<lparr> s_cafe_id = 1, s_is_active = True \<rparr>],
       bookings = [10 \<mapsto> ex_b1],
       units = [ex_unit] \<rparr>"

definition ex_obj :: BookingObj where
  "ex_obj = \<lparr> obj_id = 10, row = ex_b1, obj_tables = [1], obj_slots = [1] \<rparr>"

text \<open>A request of user 8 for the given tables and slots on day 100.\<close>

definition ex_req :: "uuid list \<Rightarrow> uuid list \<Rightarrow> int \<Rightarrow> BookingCreate" where
  "ex_req ts sls g =
     \<lparr> c_guest_number = g, c_note = None, c_status = CONFIRMED, c_booking_date = 100,
       c_cafe_id = 1, c_tables_id = ts, c_slots_id = sls \<rparr>"

text \<open>The empty patch, to be filled in field by field.\<close>

definition no_patch :: BookingUpdate where
  "no_patch =
     \<lparr> u_cafe_id = None, u_tables_id = None, u_slots_id = None, u_guest_number = None,
       u_note = None, u_status = None, u_booking_date = None, u_is_active = None \<rparr>"

text \<open>The small cafe after booking 10 has been canceled: its unit row is still there.\<close>

definition canceled_store :: store where
  "canceled_store = ex_store\<lparr> bookings := [10 \<mapsto> ex_b1\<lparr> b_status := CANCELED \<rparr>] \<rparr>"

text \<open>The small cafe after user 8 has booked table 2 in slot 2 on day 100 (booking 11).\<close>

definition ex_store2 :: store where
  "ex_store2 =
     ex_store\<lparr> bookings := (bookings ex_store)(11 \<mapsto> db_row (ex_req [2] [2] 3) 8),
               units := [ex_unit,
                 \<lparr> booking_id = 11, cafe_id = 1, table_id = 2, slot_id = 2, booking_date = 100 \<rparr>] \<rparr>"

section \<open>Lemmas\<close>

lemma insert_units_result:
  "insert_units us new = Inl IntegrityError \<or> insert_units us new = Inr (us @ new)"
proof (induction new arbitrary: us)
  case Nil
  show ?case by simp
next
  case (Cons u new)
  show ?case using Cons [of "us @ [u]"] by auto
qed

lemma insert_units_Inr_iff:
  "insert_units us new = Inr us' \<longleftrightarrow>
     us' = us @ new \<and> distinct (map atom new) \<and> set (map atom new) \<inter> set (map atom us) = {}"
  by (induction new arbitrary: us) auto

lemma insert_units_uq:
  "uq_reservation_atom us \<Longrightarrow> insert_units us new = Inr us' \<Longrightarrow> uq_reservation_atom us'"
  by (auto simp: insert_units_Inr_iff uq_reservation_atom_def)

lemma existing_units_le1:
  assumes "uq_reservation_atom (units s)"
  shows "length (existing_units s t sl d ex) \<le> 1"
proof -
  let ?xs = "map atom (existing_units s t sl d ex)"
  have d: "distinct ?xs"
    using assms unfolding existing_units_def uq_reservation_atom_def
    by (simp add: distinct_map_filter)
  have sub: "set ?xs \<subseteq> {(t, sl, d)}"
    by (auto simp: existing_units_def atom_def)
  have "length ?xs = card (set ?xs)"
    using d by (metis distinct_card)
  also have "\<dots> \<le> card {(t, sl, d)}"
    using sub by (intro card_mono) auto
  finally show ?thesis by simp
qed

lemma scalar_one_le1:
  "length xs \<le> 1 \<Longrightarrow> scalar_one_or_none xs = Inr (if xs = [] then None else Some (hd xs))"
  by (cases xs rule: scalar_one_or_none.cases) auto

lemma check_slots_uq:
  assumes "uq_reservation_atom (units s)"
  shows "check_slots s t sls d ex = Inr (\<forall>sl \<in> set sls. existing_units s t sl d ex = [])"
  by (induction sls) (auto simp: scalar_one_le1[OF existing_units_le1[OF assms]])

lemma check_tables_availability_uq:
  assumes "uq_reservation_atom (units s)"
  shows "check_tables_availability s cafe ts sls d ex =
     Inr (\<forall>t \<in> set ts. \<forall>sl \<in> set sls. existing_units s t sl d ex = [])"
  by (induction ts) (auto simp: check_slots_uq[OF assms] split: bool.splits)

lemma blocking_holds:
  "blocking s ex u \<longleftrightarrow> holds s u \<and> (case ex of None \<Rightarrow> True | Some e \<Rightarrow> booking_id u \<noteq> e)"
  by (auto simp: blocking_def holds_def split: option.splits)

lemma existing_units_empty:
  "existing_units s t sl d ex = [] \<longleftrightarrow> \<not> conflicting_unit s ex t sl d"
  by (auto simp: existing_units_def conflicting_unit_def filter_empty_conv blocking_holds)

text \<open>When a conflict exists the loops never run to their end.\<close>

lemma scalar_one_None: "scalar_one_or_none xs = Inr None \<longleftrightarrow> xs = []"
  by (cases xs rule: scalar_one_or_none.cases) auto

lemma check_slots_conflict:
  "sl \<in> set sls \<Longrightarrow> existing_units s t sl d ex \<noteq> [] \<Longrightarrow> check_slots s t sls d ex \<noteq> Inr True"
  by (induction sls) (auto simp: scalar_one_None split: sum.splits option.splits)

lemma check_tables_conflict:
  "t \<in> set ts \<Longrightarrow> sl \<in> set sls \<Longrightarrow> existing_units s t sl d ex \<noteq> [] \<Longrightarrow>
   check_tables_availability s cafe ts sls d ex \<noteq> Inr True"
  by (induction ts) (auto split: sum.splits bool.splits dest: check_slots_conflict)

lemma length_filter_all:
  "length (filter P xs) = length xs \<longleftrightarrow> (\<forall>x \<in> set xs. P x)"
proof -
  have "length (filter P xs) + length (filter (\<lambda>x. \<not> P x) xs) = length xs"
    by (rule sum_length_filter_compl)
  then have "length (filter P xs) = length xs \<longleftrightarrow> filter (\<lambda>x. \<not> P x) xs = []"
    by auto
  then show ?thesis by (simp add: filter_empty_conv)
qed

lemma remdups_count:
  "length (remdups (filter P xs)) = length (remdups xs) \<longleftrightarrow> (\<forall>x \<in> set xs. P x)"
  by (simp add: remdups_filter length_filter_all)

lemma validate_relations_iff:
  "validate_relations s cafe ts sls = Inr () \<longleftrightarrow>
     ts \<noteq> [] \<and> sls \<noteq> [] \<and> (\<forall>i \<in> set ts. table_ok s cafe i) \<and> (\<forall>i \<in> set sls. slot_ok s cafe i)"
  unfolding validate_relations_def by (simp add: remdups_count)

lemma map_filter_all_Some:
  "\<forall>i \<in> set xs. m i \<noteq> None \<Longrightarrow>
   List.map_filter (\<lambda>i. map_option (Pair i) (m i)) xs = map (\<lambda>i. (i, the (m i))) xs"
  by (induction xs) (auto simp: List.map_filter_simps)

lemma select_tables_ok:
  assumes "\<forall>i \<in> set ids. table_ok s cafe i"
  shows "select_tables s ids = map (\<lambda>i. (i, the (tables s i))) (remdups ids)"
proof -
  have "\<forall>i \<in> set (remdups ids). tables s i \<noteq> None"
    using assms by (auto simp: table_ok_def split: option.splits)
  then show ?thesis unfolding select_tables_def by (rule map_filter_all_Some)
qed

lemma select_slots_ok:
  assumes "\<forall>i \<in> set ids. slot_ok s cafe i"
  shows "select_slots s ids = map (\<lambda>i. (i, the (slots s i))) (remdups ids)"
proof -
  have "\<forall>i \<in> set (remdups ids). slots s i \<noteq> None"
    using assms by (auto simp: slot_ok_def split: option.splits)
  then show ?thesis unfolding select_slots_def by (rule map_filter_all_Some)
qed

lemma map_filter_fst:
  "map fst (List.map_filter (\<lambda>i. map_option (Pair i) (m i)) xs) = filter (\<lambda>i. m i \<noteq> None) xs"
  by (induction xs) (auto simp: List.map_filter_simps)

lemma map_filter_snd:
  "map snd (List.map_filter (\<lambda>i. map_option (Pair i) (m i)) xs)
     = map (\<lambda>i. the (m i)) (filter (\<lambda>i. m i \<noteq> None) xs)"
  by (induction xs) (auto simp: List.map_filter_simps)

lemma select_tables_fst:
  "map fst (select_tables s ids) = filter (\<lambda>i. tables s i \<noteq> None) (remdups ids)"
  unfolding select_tables_def by (rule map_filter_fst)

lemma select_tables_empty: "select_tables s ids = [] \<longleftrightarrow> resolved s ids = {}"
proof -
  have "select_tables s ids = [] \<longleftrightarrow> map fst (select_tables s ids) = []" by simp
  also have "\<dots> \<longleftrightarrow> resolved s ids = {}"
    unfolding select_tables_fst resolved_def by (auto simp: filter_empty_conv)
  finally show ?thesis .
qed

lemma total_seats_resolved:
  "total_seats (select_tables s ids) = seats_of s (resolved s ids)"
proof -
  let ?xs = "filter (\<lambda>i. tables s i \<noteq> None) (remdups ids)"
  have "total_seats (select_tables s ids) = sum_list (map seat_number (map snd (select_tables s ids)))"
    by (simp add: total_seats_def comp_def)
  also have "\<dots> = sum_list (map (\<lambda>i. seat_number (the (tables s i))) ?xs)"
    unfolding select_tables_def map_filter_snd by (simp add: comp_def)
  also have "\<dots> = sum_list (map (\<lambda>i. case tables s i of None \<Rightarrow> 0 | Some t \<Rightarrow> seat_number t) ?xs)"
    by (rule arg_cong[where f = sum_list]) (auto split: option.splits)
  also have "\<dots> = (\<Sum>i \<in> set ?xs. case tables s i of None \<Rightarrow> 0 | Some t \<Rightarrow> seat_number t)"
    by (rule sum_list_distinct_conv_sum_set) simp
  also have "set ?xs = resolved s ids" by (auto simp: resolved_def)
  finally show ?thesis by (simp add: seats_of_def)
qed

lemma resolved_all:
  "\<forall>i \<in> set ids. table_ok s cafe i \<Longrightarrow> resolved s ids = set ids"
  by (auto simp: resolved_def table_ok_def split: option.splits)

lemma validate_tables_capacity_iff:
  "validate_tables_capacity s ids g \<longleftrightarrow>
     resolved s ids \<noteq> {} \<and> g \<le> seats_of s (resolved s ids)"
  unfolding validate_tables_capacity_def Let_def
  by (simp add: select_tables_empty total_seats_resolved)


section \<open>The two operations, case by case\<close>

lemma create_Inr_iff:
  "create_with_validation today new_id s obj_in uid = (Inr b, s') \<longleftrightarrow>
     c_cafe_id obj_in \<in> cafes s \<and>
     validate_booking_date today (c_booking_date obj_in) \<and>
     validate_relations s (c_cafe_id obj_in) (c_tables_id obj_in) (c_slots_id obj_in) = Inr () \<and>
     validate_tables_capacity s (c_tables_id obj_in) (c_guest_number obj_in) \<and>
     check_tables_availability s (c_cafe_id obj_in) (c_tables_id obj_in) (c_slots_id obj_in)
        (c_booking_date obj_in) None = Inr True \<and>
     bookings s new_id = None \<and> uid \<in> users s \<and>
     insert_units (units s)
        (new_units new_id (c_cafe_id obj_in) (c_booking_date obj_in)
           (map fst (select_tables s (c_tables_id obj_in)))
           (map fst (select_slots s (c_slots_id obj_in)))) = Inr (units s') \<and>
     s' = s\<lparr> bookings := (bookings s)(new_id \<mapsto> db_row obj_in uid), units := units s' \<rparr> \<and>
     b = refresh s' new_id (db_row obj_in uid)"
  unfolding create_with_validation_def db_row_def
  by (auto simp: Let_def split: sum.splits bool.splits)

lemma create_Inl_store:
  "fst (create_with_validation today new_id s obj_in uid) = Inl e \<Longrightarrow>
   snd (create_with_validation today new_id s obj_in uid) = s"
  unfolding create_with_validation_def
  by (auto simp: Let_def split: sum.splits bool.splits if_splits)

lemma create_uq:
  assumes "uq_reservation_atom (units s)"
  shows "uq_reservation_atom (units (snd (create_with_validation today new_id s obj_in uid)))"
proof (cases "fst (create_with_validation today new_id s obj_in uid)")
  case (Inl e)
  then show ?thesis using assms by (simp add: create_Inl_store)
next
  case (Inr b)
  then have "create_with_validation today new_id s obj_in uid =
      (Inr b, snd (create_with_validation today new_id s obj_in uid))"
    by (metis prod.collapse)
  then show ?thesis using assms insert_units_uq unfolding create_Inr_iff by blast
qed

lemma flush_booking_Inr:
  "flush_booking s db_obj obj_in = Inr s1 \<longleftrightarrow>
     \<not> null_in_not_null obj_in \<and>
     (\<forall>c. attr (u_cafe_id obj_in) = Some c \<longrightarrow> c = b_cafe_id (row db_obj) \<or> c \<in> cafes s) \<and>
     s1 = written s db_obj obj_in"
  unfolding flush_booking_def written_def by (auto split: option.splits)

lemma flush_booking_Inl:
  "flush_booking s db_obj obj_in = Inl e \<longleftrightarrow>
     e = IntegrityError \<and>
     (null_in_not_null obj_in \<or>
      (\<exists>c. attr (u_cafe_id obj_in) = Some c \<and> c \<noteq> b_cafe_id (row db_obj) \<and> c \<notin> cafes s))"
  unfolding flush_booking_def by (auto split: option.splits if_splits)

lemma case_target_cafe:
  "(case attr (u_cafe_id obj_in) of None \<Rightarrow> b_cafe_id (setattrs (row db_obj) obj_in) | Some c \<Rightarrow> c)
     = target_cafe_id db_obj obj_in"
  by (simp add: setattrs_def target_cafe_id_def split: option.splits)

lemma case_target_date:
  "(case attr (u_booking_date obj_in) of None \<Rightarrow> b_booking_date (setattrs (row db_obj) obj_in) | Some c \<Rightarrow> c)
     = target_booking_date db_obj obj_in"
  by (simp add: setattrs_def target_booking_date_def split: option.splits)

lemma update_Inr_iff:
  "update_with_validation today s db_obj obj_in = (Inr b, s') \<longleftrightarrow>
     \<not> b_booking_date (row db_obj) < today \<and> b_status (row db_obj) \<noteq> DONE \<and>
     check_update_date today obj_in = Inr () \<and>
     flush_booking s db_obj obj_in = Inr (written s db_obj obj_in) \<and>
     (if u_tables_id obj_in \<noteq> None \<or> u_slots_id obj_in \<noteq> None
      then validate_relations ((written s db_obj obj_in)\<lparr> units := others db_obj s \<rparr>)
             (target_cafe_id db_obj obj_in)
             (target_tables_ids db_obj obj_in) (target_slots_ids db_obj obj_in) = Inr () \<and>
           insert_units (others db_obj s) (fresh_units db_obj obj_in) = Inr (units s') \<and>
           s' = (written s db_obj obj_in)\<lparr> units := units s' \<rparr>
      else s' = written s db_obj obj_in) \<and>
     b = refresh s' (obj_id db_obj) (setattrs (row db_obj) obj_in)"
  unfolding update_with_validation_def fresh_units_def others_def Let_def
    case_target_cafe case_target_date target_tables_ids_def target_slots_ids_def
  by (auto simp: flush_booking_Inr flush_booking_Inl written_def
       split: sum.splits)

lemma update_Inl_store:
  "fst (update_with_validation today s db_obj obj_in) = Inl e \<Longrightarrow>
   snd (update_with_validation today s db_obj obj_in) = s"
  unfolding update_with_validation_def
  by (auto simp: Let_def split: sum.splits bool.splits if_splits)

lemma update_uq:
  assumes "uq_reservation_atom (units s)"
  shows "uq_reservation_atom (units (snd (update_with_validation today s db_obj obj_in)))"
proof (cases "fst (update_with_validation today s db_obj obj_in)")
  case (Inl e)
  then show ?thesis using assms by (simp add: update_Inl_store)
next
  case (Inr b)
  then have *: "update_with_validation today s db_obj obj_in =
      (Inr b, snd (update_with_validation today s db_obj obj_in))"
    by (metis prod.collapse)
  have o: "uq_reservation_atom (others db_obj s)"
    using assms by (simp add: uq_reservation_atom_def others_def distinct_map_filter)
  show ?thesis
  proof (cases "u_tables_id obj_in \<noteq> None \<or> u_slots_id obj_in \<noteq> None")
    case True
    then show ?thesis using * o insert_units_uq unfolding update_Inr_iff by (simp only: if_True) blast
  next
    case False
    then have "snd (update_with_validation today s db_obj obj_in) = written s db_obj obj_in"
      using * unfolding update_Inr_iff by auto
    then show ?thesis using assms by (simp add: written_def)
  qed
qed

lemma uq_no_double_booking:
  assumes "uq_reservation_atom (units s)"
  shows "no_double_booking s"
proof -
  have "inj_on atom (set (units s))"
    using assms by (simp add: uq_reservation_atom_def distinct_map)
  then have "\<And>u v. u \<in> set (units s) \<Longrightarrow> v \<in> set (units s) \<Longrightarrow> atom u = atom v \<Longrightarrow> u = v"
    by (auto dest: inj_onD)
  then show ?thesis
    unfolding no_double_booking_def clash_def by blast
qed


lemmas ex_defs = ex_store_def ex_b1_def ex_unit_def ex_obj_def ex_req_def no_patch_def

lemmas run_defs = create_with_validation_def update_with_validation_def
  validate_booking_date_def validate_relations_def table_ok_def slot_ok_def
  select_tables_def select_slots_def List.map_filter_simps validate_tables_capacity_def
  total_seats_def existing_units_def blocking_def new_units_def atom_def refresh_def
  db_row_def Let_def check_update_date_def flush_booking_def null_in_not_null_def
  attr_def setattrs_def list_or_def

lemma ex_uq: "uq_reservation_atom (units ex_store)"
  by (simp add: ex_defs uq_reservation_atom_def atom_def)

text \<open>The object of booking 10 is what \<open>get_with_relations\<close> loads from the small cafe.\<close>

lemma ex_obj_loaded: "get_with_relations ex_store 10 = Some ex_obj"
  by (simp add: get_with_relations_def refresh_def ex_defs)

section \<open>The claims\<close>

text \<open>
  C1 (uniqueness invariant). From a database that satisfies the schema constraint
  \<open>uq_reservation_atom\<close>, every state reached through \<open>create_with_validation\<close> and
  \<open>update_with_validation\<close>, whatever their arguments and outcomes, satisfies the
  constraint again: no two unit rows have the same (table_id, slot_id, booking_date),
  whatever the status of their bookings. In particular no two units with the same tuple
  belong to two distinct bookings that are both active and not CANCELED.
\<close>

theorem uniqueness_invariant:
  assumes "uq_reservation_atom (units s0)" and "reachable s0 s"
  shows "uq_reservation_atom (units s) \<and> no_double_booking s"
proof -
  have "uq_reservation_atom (units s)"
    using assms(2, 1)
  proof (induction rule: reachable.induct)
    case start
    then show ?case .
  next
    case (create s today new_id obj_in uid)
    then show ?case by (simp add: create_uq)
  next
    case (update s today db_obj obj_in)
    then show ?case by (simp add: update_uq)
  qed
  then show ?thesis by (simp add: uq_no_double_booking)
qed

theorem uniqueness_invariant_witness:
  "uq_reservation_atom (units ex_store) \<and>
   reachable ex_store (snd (create_with_validation 50 11 ex_store (ex_req [2] [2] 3) 8)) \<and>
   length (units (snd (create_with_validation 50 11 ex_store (ex_req [2] [2] 3) 8))) = 2 \<and>
   uq_reservation_atom (units (snd (create_with_validation 50 11 ex_store (ex_req [2] [2] 3) 8))) \<and>
   no_double_booking (snd (create_with_validation 50 11 ex_store (ex_req [2] [2] 3) 8))"
proof -
  have r: "reachable ex_store (snd (create_with_validation 50 11 ex_store (ex_req [2] [2] 3) 8))"
    by (rule reachable.create[OF reachable.start])
  have l: "length (units (snd (create_with_validation 50 11 ex_store (ex_req [2] [2] 3) 8))) = 2"
    by (simp add: run_defs ex_defs)
  show ?thesis using uniqueness_invariant[OF ex_uq r] ex_uq r l by simp
qed

text \<open>
  C6 (capacity check). \<open>validate_tables_capacity\<close> is true exactly when the set of
  tables that the ids resolve to is not empty and their seats add up to at least
  \<open>guest_number\<close>; when no table resolves it is false, whatever \<open>guest_number\<close>; and
  \<open>create_with_validation\<close>, once the cafe, the date and the relations have passed, turns
  a false result into the validation error that carries the requested guest number and the
  available seat total.
\<close>

theorem capacity_check:
  "(validate_tables_capacity s ids g \<longleftrightarrow>
      resolved s ids \<noteq> {} \<and> g \<le> seats_of s (resolved s ids)) \<and>
   (resolved s ids = {} \<longrightarrow> \<not> validate_tables_capacity s ids g) \<and>
   (c_cafe_id obj_in \<in> cafes s \<and> validate_booking_date today (c_booking_date obj_in) \<and>
    validate_relations s (c_cafe_id obj_in) (c_tables_id obj_in) (c_slots_id obj_in) = Inr () \<and>
    \<not> validate_tables_capacity s (c_tables_id obj_in) (c_guest_number obj_in) \<longrightarrow>
      create_with_validation today new_id s obj_in uid =
        (Inl (ValueError (NotEnoughSeats (c_guest_number obj_in)
                (seats_of s (resolved s (c_tables_id obj_in))))), s))"
proof -
  have a: "validate_tables_capacity s ids g \<longleftrightarrow>
      resolved s ids \<noteq> {} \<and> g \<le> seats_of s (resolved s ids)"
    by (rule validate_tables_capacity_iff)
  have c: "create_with_validation today new_id s obj_in uid =
        (Inl (ValueError (NotEnoughSeats (c_guest_number obj_in)
                (seats_of s (resolved s (c_tables_id obj_in))))), s)"
    if "c_cafe_id obj_in \<in> cafes s" "validate_booking_date today (c_booking_date obj_in)"
      "validate_relations s (c_cafe_id obj_in) (c_tables_id obj_in) (c_slots_id obj_in) = Inr ()"
      "\<not> validate_tables_capacity s (c_tables_id obj_in) (c_guest_number obj_in)"
    using that unfolding create_with_validation_def
    by (simp add: Let_def total_seats_resolved)
  show ?thesis using a c by blast
qed

theorem capacity_check_witness:
  "\<not> validate_tables_capacity ex_store [1, 2] 6 \<and>
   validate_tables_capacity ex_store [1, 2] 5 \<and>
   resolved ex_store [9] = {} \<and> \<not> validate_tables_capacity ex_store [9] 0 \<and>
   create_with_validation 50 11 ex_store (ex_req [1, 2] [2] 6) 8 =
     (Inl (ValueError (NotEnoughSeats 6 5)), ex_store)"
proof -
  have r: "resolved ex_store [1, 2] = {1, 2}" "resolved ex_store [9] = {}"
    by (auto simp: resolved_def ex_defs)
  have s: "seats_of ex_store {1, 2} = 5"
    by (simp add: seats_of_def ex_defs)
  have h: "c_cafe_id (ex_req [1, 2] [2] 6) \<in> cafes ex_store \<and>
     validate_booking_date 50 (c_booking_date (ex_req [1, 2] [2] 6)) \<and>
     validate_relations ex_store (c_cafe_id (ex_req [1, 2] [2] 6))
       (c_tables_id (ex_req [1, 2] [2] 6)) (c_slots_id (ex_req [1, 2] [2] 6)) = Inr ()"
    by (simp add: run_defs ex_defs)
  show ?thesis
    using capacity_check[of ex_store "[1, 2]" 6 "ex_req [1, 2] [2] 6" 50 11 8]
      capacity_check[of ex_store "[1, 2]" 5 "ex_req [1, 2] [2] 6" 50 11 8]
      capacity_check[of ex_store "[9]" 0 "ex_req [1, 2] [2] 6" 50 11 8] h r s
    by (simp add: ex_req_def)
qed

text \<open>
  C7 (frozen past and terminal state). \<open>update_with_validation\<close> on a booking whose date
  is before today, or whose status is DONE, raises a \<open>ValueError\<close> and leaves the
  database as it was; a creation with a date before today fails (cafe not found, or past
  date), and so does an update that sets a date before today; \<open>validate_booking_date\<close>
  is true exactly for today and later dates.
\<close>

theorem frozen_past_and_terminal:
  "(b_booking_date (row db_obj) < today \<longrightarrow>
      update_with_validation today s db_obj obj_in = (Inl (ValueError PastBooking), s)) \<and>
   (b_status (row db_obj) = DONE \<longrightarrow>
      update_with_validation today s db_obj obj_in =
        (Inl (ValueError (if b_booking_date (row db_obj) < today then PastBooking else DoneBooking)), s)) \<and>
   (c_booking_date c_in < today \<longrightarrow>
      create_with_validation today new_id s c_in uid =
        (Inl (ValueError (if c_cafe_id c_in \<in> cafes s then PastDate else CafeNotFound)), s)) \<and>
   (u_booking_date obj_in = Some (Some d) \<and> d < today \<longrightarrow>
      (\<exists>r. update_with_validation today s db_obj obj_in = (Inl (ValueError r), s))) \<and>
   (validate_booking_date today d' \<longleftrightarrow> today \<le> d')"
  unfolding update_with_validation_def create_with_validation_def validate_booking_date_def
    check_update_date_def
  by (auto simp: Let_def)

theorem frozen_past_and_terminal_witness:
  "update_with_validation 150 ex_store ex_obj (no_patch\<lparr> u_note := Some (Some ''late'') \<rparr>) =
     (Inl (ValueError PastBooking), ex_store) \<and>
   update_with_validation 50 ex_store (ex_obj\<lparr> row := ex_b1\<lparr> b_status := DONE \<rparr> \<rparr>)
       (no_patch\<lparr> u_note := Some (Some ''late'') \<rparr>) =
     (Inl (ValueError DoneBooking), ex_store) \<and>
   create_with_validation 150 11 ex_store (ex_req [2] [2] 3) 8 =
     (Inl (ValueError PastDate), ex_store) \<and>
   (\<exists>r. update_with_validation 50 ex_store ex_obj (no_patch\<lparr> u_booking_date := Some (Some 20) \<rparr>) =
     (Inl (ValueError r), ex_store)) \<and>
   validate_booking_date 50 50 \<and> \<not> validate_booking_date 50 49"
  using frozen_past_and_terminal[of ex_obj 150 ex_store "no_patch\<lparr> u_note := Some (Some ''late'') \<rparr>"
      "ex_req [2] [2] 3" 11 8 0 50]
    frozen_past_and_terminal[of "ex_obj\<lparr> row := ex_b1\<lparr> b_status := DONE \<rparr> \<rparr>" 50 ex_store
      "no_patch\<lparr> u_note := Some (Some ''late'') \<rparr>" "ex_req [2] [2] 3" 11 8 0 50]
    frozen_past_and_terminal[of ex_obj 50 ex_store "no_patch\<lparr> u_booking_date := Some (Some 20) \<rparr>"
      "ex_req [2] [2] 3" 11 8 20 49]
  by (simp add: ex_defs)


text \<open>
  C2 (cross-product availability). On a database that satisfies the schema constraint,
  \<open>check_tables_availability\<close> returns true exactly when no pair (t, s) of the requested
  tables and slots has a unit on that date whose booking is active, not CANCELED and not
  the excluded booking, and false as soon as one pair has one. \<open>create_with_validation\<close>
  then rejects the whole request, leaving the database as it was: with the \<open>Occupied\<close>
  error when the earlier checks pass, whatever the other pairs are.
\<close>

theorem cross_product_availability:
  assumes "uq_reservation_atom (units s)"
  shows "check_tables_availability s cafe ts sls d ex =
           Inr (\<forall>t \<in> set ts. \<forall>sl \<in> set sls. \<not> conflicting_unit s ex t sl d) \<and>
         ((\<exists>t \<in> set (c_tables_id obj_in). \<exists>sl \<in> set (c_slots_id obj_in).
              conflicting_unit s None t sl (c_booking_date obj_in)) \<longrightarrow>
            (\<exists>e. create_with_validation today new_id s obj_in uid = (Inl e, s)) \<and>
            (c_cafe_id obj_in \<in> cafes s \<and> validate_booking_date today (c_booking_date obj_in) \<and>
             validate_relations s (c_cafe_id obj_in) (c_tables_id obj_in) (c_slots_id obj_in) = Inr () \<and>
             validate_tables_capacity s (c_tables_id obj_in) (c_guest_number obj_in) \<longrightarrow>
               create_with_validation today new_id s obj_in uid = (Inl (ValueError Occupied), s)))"
proof -
  have a: "check_tables_availability s cafe ts sls d ex =
           Inr (\<forall>t \<in> set ts. \<forall>sl \<in> set sls. \<not> conflicting_unit s ex t sl d)" for cafe ts sls d ex
    by (simp add: check_tables_availability_uq[OF assms] existing_units_empty)
  have b: "(\<exists>e. create_with_validation today new_id s obj_in uid = (Inl e, s)) \<and>
            (c_cafe_id obj_in \<in> cafes s \<and> validate_booking_date today (c_booking_date obj_in) \<and>
             validate_relations s (c_cafe_id obj_in) (c_tables_id obj_in) (c_slots_id obj_in) = Inr () \<and>
             validate_tables_capacity s (c_tables_id obj_in) (c_guest_number obj_in) \<longrightarrow>
               create_with_validation today new_id s obj_in uid = (Inl (ValueError Occupied), s))"
    if c: "\<exists>t \<in> set (c_tables_id obj_in). \<exists>sl \<in> set (c_slots_id obj_in).
              conflicting_unit s None t sl (c_booking_date obj_in)"
  proof -
    have f: "check_tables_availability s (c_cafe_id obj_in) (c_tables_id obj_in) (c_slots_id obj_in)
        (c_booking_date obj_in) None = Inr False"
      using c by (simp add: a)
    show ?thesis
      unfolding create_with_validation_def
      by (auto simp: Let_def f split: sum.splits)
  qed
  show ?thesis using a b by blast
qed

theorem cross_product_availability_witness:
  "uq_reservation_atom (units ex_store) \<and>
   conflicting_unit ex_store None 1 1 100 \<and>
   check_tables_availability ex_store 1 [1, 2] [1, 2] 100 None = Inr False \<and>
   check_tables_availability ex_store 1 [2] [1, 2] 100 None = Inr True \<and>
   check_tables_availability ex_store 1 [1, 2] [1, 2] 100 (Some 10) = Inr True \<and>
   create_with_validation 50 11 ex_store (ex_req [1, 2] [1, 2] 4) 8 =
     (Inl (ValueError Occupied), ex_store)"
proof -
  have c: "conflicting_unit ex_store ex t sl 100 \<longleftrightarrow> t = 1 \<and> sl = 1 \<and> ex \<noteq> Some 10" for ex t sl
    by (auto simp: conflicting_unit_def holds_def ex_defs split: option.splits)
  have h: "c_cafe_id (ex_req [1, 2] [1, 2] 4) \<in> cafes ex_store \<and>
     validate_booking_date 50 (c_booking_date (ex_req [1, 2] [1, 2] 4)) \<and>
     validate_relations ex_store (c_cafe_id (ex_req [1, 2] [1, 2] 4))
       (c_tables_id (ex_req [1, 2] [1, 2] 4)) (c_slots_id (ex_req [1, 2] [1, 2] 4)) = Inr () \<and>
     validate_tables_capacity ex_store (c_tables_id (ex_req [1, 2] [1, 2] 4))
       (c_guest_number (ex_req [1, 2] [1, 2] 4))"
    by (simp add: run_defs ex_defs)
  show ?thesis
    using cross_product_availability[OF ex_uq, of 1 "[1, 2]" "[1, 2]" 100 None "ex_req [1, 2] [1, 2] 4" 50 11 8]
      cross_product_availability[OF ex_uq, of 1 "[2]" "[1, 2]" 100 None "ex_req [1, 2] [1, 2] 4" 50 11 8]
      cross_product_availability[OF ex_uq, of 1 "[1, 2]" "[1, 2]" 100 "Some 10" "ex_req [1, 2] [1, 2] 4" 50 11 8]
      h ex_uq
    by (simp add: c ex_req_def)
qed

lemma validate_relations_cases:
  "validate_relations s cafe ts sls =
     (if ts = [] then Inl (ValueError NoTables)
      else if sls = [] then Inl (ValueError NoSlots)
      else if \<exists>i \<in> set ts. \<not> table_ok s cafe i then Inl (ValueError TablesUnavailable)
      else if \<exists>i \<in> set sls. \<not> slot_ok s cafe i then Inl (ValueError SlotsUnavailable)
      else Inr ())"
  unfolding validate_relations_def by (auto simp: remdups_count)

lemma capacity_when_resolved:
  assumes "\<forall>i \<in> set ids. table_ok s cafe i" and "ids \<noteq> []"
  shows "validate_tables_capacity s ids g \<longleftrightarrow> g \<le> seats_of s (set ids)"
    and "total_seats (select_tables s ids) = seats_of s (set ids)"
proof -
  have r: "resolved s ids = set ids" using assms(1) by (rule resolved_all)
  show "validate_tables_capacity s ids g \<longleftrightarrow> g \<le> seats_of s (set ids)"
    using assms(2) by (simp add: validate_tables_capacity_iff r)
  show "total_seats (select_tables s ids) = seats_of s (set ids)"
    by (simp add: total_seats_resolved r)
qed

lemma create_follows_checks:
  assumes "uq_reservation_atom (units s)"
    and "first_failed_check today s obj_in = Some r"
  shows "create_with_validation today new_id s obj_in uid = (Inl (ValueError r), s)"
proof -
  have avail: "check_tables_availability s (c_cafe_id obj_in) (c_tables_id obj_in)
      (c_slots_id obj_in) (c_booking_date obj_in) None =
      Inr (\<not> (\<exists>t \<in> set (c_tables_id obj_in). \<exists>sl \<in> set (c_slots_id obj_in).
                conflicting_unit s None t sl (c_booking_date obj_in)))"
    by (simp add: check_tables_availability_uq[OF assms(1)] existing_units_empty)
  show ?thesis
  proof (cases "validate_relations s (c_cafe_id obj_in) (c_tables_id obj_in) (c_slots_id obj_in)")
    case (Inl e)
    then show ?thesis
      using assms(2) unfolding first_failed_check_def create_with_validation_def
      by (auto simp: validate_relations_cases validate_booking_date_def split: if_splits)
  next
    case (Inr u)
    then have ok: "\<forall>i \<in> set (c_tables_id obj_in). table_ok s (c_cafe_id obj_in) i"
      "c_tables_id obj_in \<noteq> []"
      by (auto simp: validate_relations_cases split: if_splits)
    show ?thesis
      using assms(2) Inr unfolding first_failed_check_def create_with_validation_def
      by (auto simp: Let_def validate_relations_cases validate_booking_date_def avail
          capacity_when_resolved[OF ok] split: if_splits bool.splits)
  qed
qed

lemma create_passes_checks:
  assumes "uq_reservation_atom (units s)"
    and "create_with_validation today new_id s obj_in uid = (Inr b, s')"
  shows "first_failed_check today s obj_in = None"
proof (cases "first_failed_check today s obj_in")
  case None
  then show ?thesis .
next
  case (Some r)
  then show ?thesis using create_follows_checks[OF assms(1) Some, of new_id uid] assms(2) by simp
qed

lemma create_after_checks:
  assumes "uq_reservation_atom (units s)"
    and "first_failed_check today s obj_in = None"
  shows "create_with_validation today new_id s obj_in uid = (Inl IntegrityError, s) \<or>
         (\<exists>b s'. create_with_validation today new_id s obj_in uid = (Inr b, s'))"
proof -
  have avail: "check_tables_availability s (c_cafe_id obj_in) (c_tables_id obj_in)
      (c_slots_id obj_in) (c_booking_date obj_in) None =
      Inr (\<not> (\<exists>t \<in> set (c_tables_id obj_in). \<exists>sl \<in> set (c_slots_id obj_in).
                conflicting_unit s None t sl (c_booking_date obj_in)))"
    by (simp add: check_tables_availability_uq[OF assms(1)] existing_units_empty)
  have vr: "validate_relations s (c_cafe_id obj_in) (c_tables_id obj_in) (c_slots_id obj_in) = Inr ()"
    using assms(2) unfolding first_failed_check_def
    by (auto simp: validate_relations_cases split: if_splits)
  then have ok: "\<forall>i \<in> set (c_tables_id obj_in). table_ok s (c_cafe_id obj_in) i"
      "c_tables_id obj_in \<noteq> []"
    by (auto simp: validate_relations_cases split: if_splits)
  let ?new = "new_units new_id (c_cafe_id obj_in) (c_booking_date obj_in)
           (map fst (select_tables s (c_tables_id obj_in)))
           (map fst (select_slots s (c_slots_id obj_in)))"
  show ?thesis
    using assms(2) vr insert_units_result[of "units s" ?new]
    unfolding first_failed_check_def create_with_validation_def
    by (auto simp: Let_def validate_booking_date_def avail capacity_when_resolved[OF ok]
        split: if_splits bool.splits)
qed

lemma create_effect:
  assumes "create_with_validation today new_id s obj_in uid = (Inr b, s')"
  shows "s' = s\<lparr> bookings := (bookings s)(new_id \<mapsto> db_row obj_in uid),
                  units := units s @ new_units new_id (c_cafe_id obj_in) (c_booking_date obj_in)
                     (remdups (c_tables_id obj_in)) (remdups (c_slots_id obj_in)) \<rparr>"
    and "obj_id b = new_id" and "row b = db_row obj_in uid"
proof -
  from assms have vr: "validate_relations s (c_cafe_id obj_in) (c_tables_id obj_in) (c_slots_id obj_in) = Inr ()"
    and ins: "insert_units (units s)
        (new_units new_id (c_cafe_id obj_in) (c_booking_date obj_in)
           (map fst (select_tables s (c_tables_id obj_in)))
           (map fst (select_slots s (c_slots_id obj_in)))) = Inr (units s')"
    and s': "s' = s\<lparr> bookings := (bookings s)(new_id \<mapsto> db_row obj_in uid), units := units s' \<rparr>"
    and b: "b = refresh s' new_id (db_row obj_in uid)"
    unfolding create_Inr_iff by blast+
  have t: "map fst (select_tables s (c_tables_id obj_in)) = remdups (c_tables_id obj_in)"
    using vr select_tables_ok[of "c_tables_id obj_in" s "c_cafe_id obj_in"]
    by (simp add: validate_relations_iff comp_def)
  have sl: "map fst (select_slots s (c_slots_id obj_in)) = remdups (c_slots_id obj_in)"
    using vr select_slots_ok[of "c_slots_id obj_in" s "c_cafe_id obj_in"]
    by (simp add: validate_relations_iff comp_def)
  from ins have "units s' = units s @ new_units new_id (c_cafe_id obj_in) (c_booking_date obj_in)
                     (remdups (c_tables_id obj_in)) (remdups (c_slots_id obj_in))"
    unfolding t sl insert_units_Inr_iff by simp
  with s' show "s' = s\<lparr> bookings := (bookings s)(new_id \<mapsto> db_row obj_in uid),
                  units := units s @ new_units new_id (c_cafe_id obj_in) (c_booking_date obj_in)
                     (remdups (c_tables_id obj_in)) (remdups (c_slots_id obj_in)) \<rparr>"
    by simp
  show "obj_id b = new_id" "row b = db_row obj_in uid"
    using b by (simp_all add: refresh_def)
qed

text \<open>
  C4 (creation gauntlet with atomicity). On a database that satisfies the schema
  constraint, \<open>create_with_validation\<close> raises the \<open>ValueError\<close> of the first check
  that the request fails, in the order cafe, date, non-empty lists, tables and slots
  active and of the cafe, capacity, availability; whenever it raises, the database is as
  it was; and when it returns a booking all checks have passed, the database has the new
  booking row and, appended, one unit for each pair of the requested tables and slots.
  When all checks pass, the only other outcome is an integrity error of the flush.
\<close>

theorem creation_gauntlet:
  assumes "uq_reservation_atom (units s)"
  shows "(\<forall>r. first_failed_check today s obj_in = Some r \<longrightarrow>
            create_with_validation today new_id s obj_in uid = (Inl (ValueError r), s)) \<and>
         (\<forall>e. fst (create_with_validation today new_id s obj_in uid) = Inl e \<longrightarrow>
            snd (create_with_validation today new_id s obj_in uid) = s) \<and>
         (\<forall>b s'. create_with_validation today new_id s obj_in uid = (Inr b, s') \<longrightarrow>
            first_failed_check today s obj_in = None \<and>
            s' = s\<lparr> bookings := (bookings s)(new_id \<mapsto> db_row obj_in uid),
                    units := units s @ new_units new_id (c_cafe_id obj_in) (c_booking_date obj_in)
                       (remdups (c_tables_id obj_in)) (remdups (c_slots_id obj_in)) \<rparr> \<and>
            obj_id b = new_id \<and> row b = db_row obj_in uid) \<and>
         (first_failed_check today s obj_in = None \<longrightarrow>
            create_with_validation today new_id s obj_in uid = (Inl IntegrityError, s) \<or>
            (\<exists>b s'. create_with_validation today new_id s obj_in uid = (Inr b, s')))"
proof (intro conjI allI impI)
  fix r assume "first_failed_check today s obj_in = Some r"
  then show "create_with_validation today new_id s obj_in uid = (Inl (ValueError r), s)"
    by (rule create_follows_checks[OF assms])
next
  fix e assume "fst (create_with_validation today new_id s obj_in uid) = Inl e"
  then show "snd (create_with_validation today new_id s obj_in uid) = s"
    by (rule create_Inl_store)
next
  fix b s' assume c: "create_with_validation today new_id s obj_in uid = (Inr b, s')"
  show "first_failed_check today s obj_in = None"
    using assms c by (rule create_passes_checks)
  show "s' = s\<lparr> bookings := (bookings s)(new_id \<mapsto> db_row obj_in uid),
                    units := units s @ new_units new_id (c_cafe_id obj_in) (c_booking_date obj_in)
                       (remdups (c_tables_id obj_in)) (remdups (c_slots_id obj_in)) \<rparr>"
    using c by (rule create_effect)
  show "obj_id b = new_id" using c by (rule create_effect)
  show "row b = db_row obj_in uid" using c by (rule create_effect)
next
  assume "first_failed_check today s obj_in = None"
  then show "create_with_validation today new_id s obj_in uid = (Inl IntegrityError, s) \<or>
            (\<exists>b s'. create_with_validation today new_id s obj_in uid = (Inr b, s'))"
    by (rule create_after_checks[OF assms])
qed

theorem creation_gauntlet_witness:
  "uq_reservation_atom (units ex_store) \<and>
   first_failed_check 50 ex_store (ex_req [1, 2] [] 4) = Some NoSlots \<and>
   create_with_validation 50 11 ex_store (ex_req [1, 2] [] 4) 8 =
     (Inl (ValueError NoSlots), ex_store) \<and>
   first_failed_check 50 ex_store (ex_req [1, 3] [1] 1) = Some TablesUnavailable \<and>
   create_with_validation 50 11 ex_store (ex_req [1, 3] [1] 1) 8 =
     (Inl (ValueError TablesUnavailable), ex_store) \<and>
   first_failed_check 50 ex_store (ex_req [2] [2] 3) = None \<and>
   create_with_validation 50 11 ex_store (ex_req [2] [2] 3) 8 =
     (Inr \<lparr> obj_id = 11, row = db_row (ex_req [2] [2] 3) 8, obj_tables = [2], obj_slots = [2] \<rparr>,
      ex_store\<lparr> bookings := (bookings ex_store)(11 \<mapsto> db_row (ex_req [2] [2] 3) 8),
                units := units ex_store @
                  [\<lparr> booking_id = 11, cafe_id = 1, table_id = 2, slot_id = 2, booking_date = 100 \<rparr>] \<rparr>)"
proof -
  have f1: "first_failed_check 50 ex_store (ex_req [1, 2] [] 4) = Some NoSlots"
    by (simp add: first_failed_check_def ex_defs)
  have f2: "first_failed_check 50 ex_store (ex_req [1, 3] [1] 1) = Some TablesUnavailable"
    by (simp add: first_failed_check_def ex_defs table_ok_def)
  have f3: "first_failed_check 50 ex_store (ex_req [2] [2] 3) = None"
    by (simp add: first_failed_check_def ex_defs table_ok_def slot_ok_def seats_of_def
        conflicting_unit_def)
  have c3: "create_with_validation 50 11 ex_store (ex_req [2] [2] 3) 8 =
     (Inr \<lparr> obj_id = 11, row = db_row (ex_req [2] [2] 3) 8, obj_tables = [2], obj_slots = [2] \<rparr>,
      ex_store\<lparr> bookings := (bookings ex_store)(11 \<mapsto> db_row (ex_req [2] [2] 3) 8),
                units := units ex_store @
                  [\<lparr> booking_id = 11, cafe_id = 1, table_id = 2, slot_id = 2, booking_date = 100 \<rparr>] \<rparr>)"
    by (simp add: run_defs ex_defs)
  show ?thesis
    using creation_gauntlet[OF ex_uq, of 50 "ex_req [1, 2] [] 4" 11 8]
      creation_gauntlet[OF ex_uq, of 50 "ex_req [1, 3] [1] 1" 11 8]
      creation_gauntlet[OF ex_uq, of 50 "ex_req [2] [2] 3" 11 8]
      ex_uq f1 f2 f3 c3
    by simp
qed


section \<open>The units of a cross product\<close>

lemma new_units_pairs: "map pair_of (new_units b c d ts sls) = List.product ts sls"
  by (induction ts) (simp_all add: new_units_def pair_of_def comp_def)

lemma new_units_length: "length (new_units b c d ts sls) = length ts * length sls"
  using arg_cong[OF new_units_pairs[of b c d ts sls], of length] by simp

lemma new_units_fields:
  "u \<in> set (new_units b c d ts sls) \<Longrightarrow> booking_id u = b \<and> cafe_id u = c \<and> booking_date u = d"
  by (auto simp: new_units_def)

lemma new_units_atoms:
  "map atom (new_units b c d ts sls) = map (\<lambda>p. (fst p, snd p, d)) (List.product ts sls)"
  by (induction ts) (simp_all add: new_units_def atom_def comp_def)

lemma new_units_atom_set:
  "set (map atom (new_units b c d ts sls)) = {(t, sl, d) | t sl. t \<in> set ts \<and> sl \<in> set sls}"
  unfolding new_units_atoms by (auto simp: image_iff)

lemma new_units_distinct_pairs:
  "distinct (map atom (new_units b c d ts sls)) \<Longrightarrow> distinct (map pair_of (new_units b c d ts sls))"
  unfolding new_units_atoms new_units_pairs by (simp add: distinct_map)

lemma distinct_length_card:
  assumes "distinct (map f xs)" and "set (map f xs) = A \<times> B"
  shows "length xs = card A * card B"
proof -
  have "length xs = card (set (map f xs))"
    using assms(1) by (metis distinct_card length_map)
  then show ?thesis by (simp only: assms(2) card_cartesian_product)
qed

text \<open>A unit that is there with a requested (table, slot, date) keeps every creation from committing.\<close>

lemma existing_atom_blocks_creation:
  assumes "u \<in> set (units s)" and "table_id u \<in> set (c_tables_id obj_in)"
    and "slot_id u \<in> set (c_slots_id obj_in)" and "booking_date u = c_booking_date obj_in"
  shows "create_with_validation today new_id s obj_in uid \<noteq> (Inr b, s')"
proof
  assume c: "create_with_validation today new_id s obj_in uid = (Inr b, s')"
  from c have vr: "validate_relations s (c_cafe_id obj_in) (c_tables_id obj_in) (c_slots_id obj_in) = Inr ()"
    and ins: "insert_units (units s)
        (new_units new_id (c_cafe_id obj_in) (c_booking_date obj_in)
           (map fst (select_tables s (c_tables_id obj_in)))
           (map fst (select_slots s (c_slots_id obj_in)))) = Inr (units s')"
    unfolding create_Inr_iff by blast+
  have t: "map fst (select_tables s (c_tables_id obj_in)) = remdups (c_tables_id obj_in)"
    using vr select_tables_ok[of "c_tables_id obj_in" s "c_cafe_id obj_in"]
    by (simp add: validate_relations_iff comp_def)
  have sl: "map fst (select_slots s (c_slots_id obj_in)) = remdups (c_slots_id obj_in)"
    using vr select_slots_ok[of "c_slots_id obj_in" s "c_cafe_id obj_in"]
    by (simp add: validate_relations_iff comp_def)
  have "atom u \<in> set (map atom (new_units new_id (c_cafe_id obj_in) (c_booking_date obj_in)
      (remdups (c_tables_id obj_in)) (remdups (c_slots_id obj_in))))"
    unfolding new_units_atom_set using assms(2-4) by (auto simp: atom_def)
  moreover have "atom u \<in> set (map atom (units s))" using assms(1) by simp
  ultimately show False using ins unfolding t sl insert_units_Inr_iff by blast
qed

text \<open>
  C5 (materialization count). When \<open>create_with_validation\<close> returns a booking, the
  unit table is the old one with exactly |tables| * |slots| rows appended, one for each
  (table, slot) pair of the request, each with the id of the new booking, the cafe and
  the date of the request. When \<open>update_with_validation\<close> returns and the patch has
  \<open>tables_id\<close> or \<open>slots_id\<close>, the unit table is the units of the other bookings
  followed by exactly |target tables| * |target slots| fresh rows, one for each pair of
  the targets: no unit of the booking's old selection is left.
\<close>

theorem materialization_count:
  "(create_with_validation today new_id s c_in uid = (Inr b, s') \<longrightarrow>
      (\<exists>fresh. units s' = units s @ fresh \<and>
         length fresh = card (set (c_tables_id c_in)) * card (set (c_slots_id c_in)) \<and>
         distinct (map pair_of fresh) \<and>
         set (map pair_of fresh) = set (c_tables_id c_in) \<times> set (c_slots_id c_in) \<and>
         (\<forall>u \<in> set fresh. booking_id u = new_id \<and> cafe_id u = c_cafe_id c_in \<and>
            booking_date u = c_booking_date c_in))) \<and>
   (update_with_validation today s db_obj obj_in = (Inr b2, s2) \<and>
    (u_tables_id obj_in \<noteq> None \<or> u_slots_id obj_in \<noteq> None) \<longrightarrow>
      (\<exists>fresh. units s2 = filter (\<lambda>u. booking_id u \<noteq> obj_id db_obj) (units s) @ fresh \<and>
         length fresh = length (target_tables_ids db_obj obj_in) * length (target_slots_ids db_obj obj_in) \<and>
         length fresh = card (set (target_tables_ids db_obj obj_in)) * card (set (target_slots_ids db_obj obj_in)) \<and>
         distinct (map pair_of fresh) \<and>
         set (map pair_of fresh) =
           set (target_tables_ids db_obj obj_in) \<times> set (target_slots_ids db_obj obj_in) \<and>
         (\<forall>u \<in> set fresh. booking_id u = obj_id db_obj \<and> cafe_id u = target_cafe_id db_obj obj_in \<and>
            booking_date u = target_booking_date db_obj obj_in)))"
proof (intro conjI impI)
  assume c: "create_with_validation today new_id s c_in uid = (Inr b, s')"
  let ?fresh = "new_units new_id (c_cafe_id c_in) (c_booking_date c_in)
                     (remdups (c_tables_id c_in)) (remdups (c_slots_id c_in))"
  have u: "units s' = units s @ ?fresh"
    using arg_cong[OF create_effect(1)[OF c], of units] by simp
  have p: "map pair_of ?fresh = List.product (remdups (c_tables_id c_in)) (remdups (c_slots_id c_in))"
    by (rule new_units_pairs)
  have "length ?fresh = card (set (c_tables_id c_in)) * card (set (c_slots_id c_in))"
    by (simp add: new_units_length length_remdups_card_conv)
  moreover have "distinct (map pair_of ?fresh)"
    unfolding p by (simp add: distinct_product)
  moreover have "set (map pair_of ?fresh) = set (c_tables_id c_in) \<times> set (c_slots_id c_in)"
    unfolding p by simp
  moreover have "\<forall>u \<in> set ?fresh. booking_id u = new_id \<and> cafe_id u = c_cafe_id c_in \<and>
            booking_date u = c_booking_date c_in"
    using new_units_fields by blast
  ultimately show "\<exists>fresh. units s' = units s @ fresh \<and>
         length fresh = card (set (c_tables_id c_in)) * card (set (c_slots_id c_in)) \<and>
         distinct (map pair_of fresh) \<and>
         set (map pair_of fresh) = set (c_tables_id c_in) \<times> set (c_slots_id c_in) \<and>
         (\<forall>u \<in> set fresh. booking_id u = new_id \<and> cafe_id u = c_cafe_id c_in \<and>
            booking_date u = c_booking_date c_in)"
    using u by blast
next
  assume a: "update_with_validation today s db_obj obj_in = (Inr b2, s2) \<and>
    (u_tables_id obj_in \<noteq> None \<or> u_slots_id obj_in \<noteq> None)"
  let ?fresh = "fresh_units db_obj obj_in"
  let ?T = "target_tables_ids db_obj obj_in" and ?S = "target_slots_ids db_obj obj_in"
  from a have ins: "insert_units (others db_obj s) ?fresh = Inr (units s2)"
    unfolding update_Inr_iff by (simp split: if_splits)
  then have u: "units s2 = filter (\<lambda>u. booking_id u \<noteq> obj_id db_obj) (units s) @ ?fresh"
    and d: "distinct (map atom ?fresh)"
    unfolding insert_units_Inr_iff others_def by simp_all
  have p: "map pair_of ?fresh = List.product ?T ?S"
    unfolding fresh_units_def by (rule new_units_pairs)
  have dp: "distinct (map pair_of ?fresh)"
    using d unfolding fresh_units_def by (rule new_units_distinct_pairs)
  have sp: "set (map pair_of ?fresh) = set ?T \<times> set ?S"
    unfolding p by simp
  have "length ?fresh = length ?T * length ?S"
    unfolding fresh_units_def by (rule new_units_length)
  moreover have "length ?fresh = card (set ?T) * card (set ?S)"
    using dp sp by (rule distinct_length_card)
  moreover have "\<forall>u \<in> set ?fresh. booking_id u = obj_id db_obj \<and>
      cafe_id u = target_cafe_id db_obj obj_in \<and> booking_date u = target_booking_date db_obj obj_in"
    unfolding fresh_units_def using new_units_fields by blast
  ultimately show "\<exists>fresh. units s2 = filter (\<lambda>u. booking_id u \<noteq> obj_id db_obj) (units s) @ fresh \<and>
         length fresh = length ?T * length ?S \<and>
         length fresh = card (set ?T) * card (set ?S) \<and>
         distinct (map pair_of fresh) \<and>
         set (map pair_of fresh) = set ?T \<times> set ?S \<and>
         (\<forall>u \<in> set fresh. booking_id u = obj_id db_obj \<and> cafe_id u = target_cafe_id db_obj obj_in \<and>
            booking_date u = target_booking_date db_obj obj_in)"
    using u dp sp by blast
qed


lemma ex_create_12_2:
  "create_with_validation 50 11 ex_store (ex_req [1, 2] [2] 4) 8 =
     (Inr \<lparr> obj_id = 11, row = db_row (ex_req [1, 2] [2] 4) 8, obj_tables = [1, 2], obj_slots = [2] \<rparr>,
      ex_store\<lparr> bookings := (bookings ex_store)(11 \<mapsto> db_row (ex_req [1, 2] [2] 4) 8),
                units := [ex_unit,
                  \<lparr> booking_id = 11, cafe_id = 1, table_id = 1, slot_id = 2, booking_date = 100 \<rparr>,
                  \<lparr> booking_id = 11, cafe_id = 1, table_id = 2, slot_id = 2, booking_date = 100 \<rparr>] \<rparr>)"
  by (simp add: run_defs ex_defs)

lemma ex_update_tables:
  "update_with_validation 50 ex_store ex_obj (no_patch\<lparr> u_tables_id := Some [1, 2] \<rparr>) =
     (Inr \<lparr> obj_id = 10, row = ex_b1, obj_tables = [1, 2], obj_slots = [1] \<rparr>,
      ex_store\<lparr> units :=
                 [\<lparr> booking_id = 10, cafe_id = 1, table_id = 1, slot_id = 1, booking_date = 100 \<rparr>,
                  \<lparr> booking_id = 10, cafe_id = 1, table_id = 2, slot_id = 1, booking_date = 100 \<rparr>] \<rparr>)"
  by (simp add: run_defs ex_defs)

theorem materialization_count_witness:
  "create_with_validation 50 11 ex_store (ex_req [1, 2] [2] 4) 8 =
     (Inr \<lparr> obj_id = 11, row = db_row (ex_req [1, 2] [2] 4) 8, obj_tables = [1, 2], obj_slots = [2] \<rparr>,
      ex_store\<lparr> bookings := (bookings ex_store)(11 \<mapsto> db_row (ex_req [1, 2] [2] 4) 8),
                units := [ex_unit,
                  \<lparr> booking_id = 11, cafe_id = 1, table_id = 1, slot_id = 2, booking_date = 100 \<rparr>,
                  \<lparr> booking_id = 11, cafe_id = 1, table_id = 2, slot_id = 2, booking_date = 100 \<rparr>] \<rparr>) \<and>
   update_with_validation 50 ex_store ex_obj (no_patch\<lparr> u_tables_id := Some [1, 2] \<rparr>) =
     (Inr \<lparr> obj_id = 10, row = ex_b1, obj_tables = [1, 2], obj_slots = [1] \<rparr>,
      ex_store\<lparr> units :=
                 [\<lparr> booking_id = 10, cafe_id = 1, table_id = 1, slot_id = 1, booking_date = 100 \<rparr>,
                  \<lparr> booking_id = 10, cafe_id = 1, table_id = 2, slot_id = 1, booking_date = 100 \<rparr>] \<rparr>) \<and>
   u_tables_id (no_patch\<lparr> u_tables_id := Some [1, 2] \<rparr>) \<noteq> None \<and>
   (\<exists>fresh. [ex_unit,
        \<lparr> booking_id = 11, cafe_id = 1, table_id = 1, slot_id = 2, booking_date = 100 \<rparr>,
        \<lparr> booking_id = 11, cafe_id = 1, table_id = 2, slot_id = 2, booking_date = 100 \<rparr>] =
        units ex_store @ fresh \<and> length fresh = 2) \<and>
   (\<exists>fresh. [\<lparr> booking_id = 10, cafe_id = 1, table_id = 1, slot_id = 1, booking_date = 100 \<rparr>,
        \<lparr> booking_id = 10, cafe_id = 1, table_id = 2, slot_id = 1, booking_date = 100 \<rparr>] =
        filter (\<lambda>u. booking_id u \<noteq> 10) (units ex_store) @ fresh \<and> length fresh = 2)"
proof -
  note c = ex_create_12_2 and u = ex_update_tables
  have n: "u_tables_id (no_patch\<lparr> u_tables_id := Some [1, 2] \<rparr>) \<noteq> None" by simp
  have t: "target_tables_ids ex_obj (no_patch\<lparr> u_tables_id := Some [1, 2] \<rparr>) = [1, 2]"
    "target_slots_ids ex_obj (no_patch\<lparr> u_tables_id := Some [1, 2] \<rparr>) = [1]"
    by (simp_all add: target_tables_ids_def target_slots_ids_def list_or_def ex_defs)
  note r1 = materialization_count[where today = 50 and new_id = 11 and s = ex_store
      and c_in = "ex_req [1, 2] [2] 4" and uid = 8, THEN conjunct1, THEN mp, OF c]
  note r2 = materialization_count[where today = 50 and s = ex_store and db_obj = ex_obj
      and obj_in = "no_patch\<lparr> u_tables_id := Some [1, 2] \<rparr>", THEN conjunct2, THEN mp,
      OF conjI[OF u disjI1[OF n]]]
  have a1: "\<exists>fresh. [ex_unit,
        \<lparr> booking_id = 11, cafe_id = 1, table_id = 1, slot_id = 2, booking_date = 100 \<rparr>,
        \<lparr> booking_id = 11, cafe_id = 1, table_id = 2, slot_id = 2, booking_date = 100 \<rparr>] =
        units ex_store @ fresh \<and> length fresh = 2"
    using r1 by (auto simp: ex_req_def)
  have a2: "\<exists>fresh. [\<lparr> booking_id = 10, cafe_id = 1, table_id = 1, slot_id = 1, booking_date = 100 \<rparr>,
        \<lparr> booking_id = 10, cafe_id = 1, table_id = 2, slot_id = 1, booking_date = 100 \<rparr>] =
        filter (\<lambda>u. booking_id u \<noteq> 10) (units ex_store) @ fresh \<and> length fresh = 2"
    using r2 unfolding t by (auto simp: ex_obj_def)
  show ?thesis using c u n a1 a2 by blast
qed


section \<open>Updates\<close>

lemma validate_relations_cong:
  "tables s' = tables s \<Longrightarrow> slots s' = slots s \<Longrightarrow>
   validate_relations s' cafe ts sls = validate_relations s cafe ts sls"
proof -
  assume a: "tables s' = tables s" "slots s' = slots s"
  have "table_ok s' cafe = table_ok s cafe" "slot_ok s' cafe = slot_ok s cafe"
    by (simp_all add: fun_eq_iff table_ok_def slot_ok_def a)
  then show ?thesis by (simp add: validate_relations_def)
qed

lemma validate_relations_not_occupied:
  "validate_relations s cafe ts sls \<noteq> Inl (ValueError Occupied)"
  by (simp add: validate_relations_cases)

lemma insert_units_Inl: "insert_units us new = Inl e \<Longrightarrow> e = IntegrityError"
  using insert_units_result[of us new] by auto

lemma update_without_selection:
  assumes "u_tables_id obj_in = None" and "u_slots_id obj_in = None"
  shows "update_with_validation today s db_obj obj_in =
     (if b_booking_date (row db_obj) < today then (Inl (ValueError PastBooking), s)
      else if b_status (row db_obj) = DONE then (Inl (ValueError DoneBooking), s)
      else case check_update_date today obj_in of
        Inl e \<Rightarrow> (Inl e, s)
      | Inr _ \<Rightarrow>
         (case flush_booking s db_obj obj_in of
            Inl e \<Rightarrow> (Inl e, s)
          | Inr s1 \<Rightarrow> (Inr (refresh s1 (obj_id db_obj) (setattrs (row db_obj) obj_in)), s1)))"
  unfolding update_with_validation_def using assms
  by (auto simp: Let_def split: sum.splits)

lemma flush_booking_units: "flush_booking s db_obj obj_in = Inr s1 \<Longrightarrow> units s1 = units s"
  by (simp add: flush_booking_Inr written_def)

text \<open>
  C8 (frame of non-selection updates). When the patch has none of \<open>tables_id\<close>,
  \<open>slots_id\<close> and \<open>booking_date\<close>, the unit table after \<open>update_with_validation\<close> is
  the unit table before it, whatever the outcome. The call returns when the booking is
  neither past nor DONE and the flush accepts the row; and when it returns, only the row
  of the booking has changed, it has the supplied \<open>guest_number\<close>, \<open>note\<close>, \<open>status\<close>
  and \<open>is_active\<close>, and its other columns are as before.
\<close>

theorem non_selection_update_frame:
  assumes "u_tables_id obj_in = None" and "u_slots_id obj_in = None"
    and "u_booking_date obj_in = None"
  shows "units (snd (update_with_validation today s db_obj obj_in)) = units s \<and>
     (today \<le> b_booking_date (row db_obj) \<and> b_status (row db_obj) \<noteq> DONE \<and>
      \<not> null_in_not_null obj_in \<and>
      (\<forall>c. u_cafe_id obj_in = Some (Some c) \<longrightarrow> c = b_cafe_id (row db_obj) \<or> c \<in> cafes s) \<longrightarrow>
        (\<exists>b s'. update_with_validation today s db_obj obj_in = (Inr b, s'))) \<and>
     (\<forall>b s'. update_with_validation today s db_obj obj_in = (Inr b, s') \<longrightarrow>
        s' = s\<lparr> bookings := (bookings s)(obj_id db_obj \<mapsto> row b) \<rparr> \<and>
        (\<forall>g. u_guest_number obj_in = Some (Some g) \<longrightarrow> b_guest_number (row b) = g) \<and>
        (\<forall>n. u_note obj_in = Some n \<longrightarrow> b_note (row b) = n) \<and>
        (\<forall>st. u_status obj_in = Some (Some st) \<longrightarrow> b_status (row b) = st) \<and>
        (\<forall>a. u_is_active obj_in = Some (Some a) \<longrightarrow> b_is_active (row b) = a) \<and>
        (u_guest_number obj_in = None \<longrightarrow> b_guest_number (row b) = b_guest_number (row db_obj)) \<and>
        (u_note obj_in = None \<longrightarrow> b_note (row b) = b_note (row db_obj)) \<and>
        (u_status obj_in = None \<longrightarrow> b_status (row b) = b_status (row db_obj)) \<and>
        (u_is_active obj_in = None \<longrightarrow> b_is_active (row b) = b_is_active (row db_obj)) \<and>
        b_booking_date (row b) = b_booking_date (row db_obj) \<and>
        user_id (row b) = user_id (row db_obj))"
proof (intro conjI allI impI)
  show "units (snd (update_with_validation today s db_obj obj_in)) = units s"
    unfolding update_without_selection[OF assms(1,2)]
    by (auto simp: flush_booking_units split: sum.splits)
next
  assume "today \<le> b_booking_date (row db_obj) \<and> b_status (row db_obj) \<noteq> DONE \<and>
      \<not> null_in_not_null obj_in \<and>
      (\<forall>c. u_cafe_id obj_in = Some (Some c) \<longrightarrow> c = b_cafe_id (row db_obj) \<or> c \<in> cafes s)"
  then show "\<exists>b s'. update_with_validation today s db_obj obj_in = (Inr b, s')"
    unfolding update_without_selection[OF assms(1,2)]
    by (auto simp: check_update_date_def assms(3) flush_booking_def attr_def
        split: sum.splits option.splits)
next
  fix b s' assume u: "update_with_validation today s db_obj obj_in = (Inr b, s')"
  then have b: "b = refresh s' (obj_id db_obj) (setattrs (row db_obj) obj_in)"
    and s': "s' = written s db_obj obj_in"
    unfolding update_Inr_iff using assms(1,2) by simp_all
  have r: "row b = setattrs (row db_obj) obj_in" using b by (simp add: refresh_def)
  show "s' = s\<lparr> bookings := (bookings s)(obj_id db_obj \<mapsto> row b) \<rparr>"
    using s' r by (simp add: written_def)
  show "b_guest_number (row b) = g" if "u_guest_number obj_in = Some (Some g)" for g
    using that by (simp add: r setattrs_def attr_def)
  show "b_note (row b) = n" if "u_note obj_in = Some n" for n
    using that by (simp add: r setattrs_def)
  show "b_status (row b) = st" if "u_status obj_in = Some (Some st)" for st
    using that by (simp add: r setattrs_def attr_def)
  show "b_is_active (row b) = a" if "u_is_active obj_in = Some (Some a)" for a
    using that by (simp add: r setattrs_def attr_def)
  show "b_guest_number (row b) = b_guest_number (row db_obj)" if "u_guest_number obj_in = None"
    using that by (simp add: r setattrs_def attr_def)
  show "b_note (row b) = b_note (row db_obj)" if "u_note obj_in = None"
    using that by (simp add: r setattrs_def)
  show "b_status (row b) = b_status (row db_obj)" if "u_status obj_in = None"
    using that by (simp add: r setattrs_def attr_def)
  show "b_is_active (row b) = b_is_active (row db_obj)" if "u_is_active obj_in = None"
    using that by (simp add: r setattrs_def attr_def)
  show "b_booking_date (row b) = b_booking_date (row db_obj)"
    using assms(3) by (simp add: r setattrs_def attr_def)
  show "user_id (row b) = user_id (row db_obj)"
    by (simp add: r setattrs_def)
qed


theorem non_selection_update_frame_witness:
  "u_tables_id (no_patch\<lparr> u_guest_number := Some (Some 3), u_note := Some (Some ''window'') \<rparr>) = None \<and>
   u_slots_id (no_patch\<lparr> u_guest_number := Some (Some 3), u_note := Some (Some ''window'') \<rparr>) = None \<and>
   u_booking_date (no_patch\<lparr> u_guest_number := Some (Some 3), u_note := Some (Some ''window'') \<rparr>) = None \<and>
   update_with_validation 50 ex_store ex_obj
       (no_patch\<lparr> u_guest_number := Some (Some 3), u_note := Some (Some ''window'') \<rparr>) =
     (Inr (ex_obj\<lparr> row := ex_b1\<lparr> b_guest_number := 3, b_note := Some ''window'' \<rparr> \<rparr>),
      ex_store\<lparr> bookings := [10 \<mapsto> ex_b1\<lparr> b_guest_number := 3, b_note := Some ''window'' \<rparr>] \<rparr>) \<and>
   units (snd (update_with_validation 50 ex_store ex_obj
       (no_patch\<lparr> u_guest_number := Some (Some 3), u_note := Some (Some ''window'') \<rparr>))) = [ex_unit]"
proof -
  let ?p = "no_patch\<lparr> u_guest_number := Some (Some 3), u_note := Some (Some ''window'') \<rparr>"
  have h: "u_tables_id ?p = None" "u_slots_id ?p = None" "u_booking_date ?p = None"
    by (simp_all add: no_patch_def)
  have e: "update_with_validation 50 ex_store ex_obj ?p =
     (Inr (ex_obj\<lparr> row := ex_b1\<lparr> b_guest_number := 3, b_note := Some ''window'' \<rparr> \<rparr>),
      ex_store\<lparr> bookings := [10 \<mapsto> ex_b1\<lparr> b_guest_number := 3, b_note := Some ''window'' \<rparr>] \<rparr>)"
    by (simp add: run_defs ex_defs)
  have u: "units ex_store = [ex_unit]" by (simp add: ex_store_def)
  show ?thesis
    using non_selection_update_frame[OF h, of 50 ex_store ex_obj] h e u by simp
qed

lemma validate_relations_written:
  "validate_relations ((written s db_obj obj_in)\<lparr> units := us \<rparr>) cafe ts sls =
     validate_relations s cafe ts sls"
  by (rule validate_relations_cong) (simp_all add: written_def)

lemma update_with_selection:
  assumes "u_tables_id obj_in \<noteq> None \<or> u_slots_id obj_in \<noteq> None"
  shows "update_with_validation today s db_obj obj_in =
     (if b_booking_date (row db_obj) < today then (Inl (ValueError PastBooking), s)
      else if b_status (row db_obj) = DONE then (Inl (ValueError DoneBooking), s)
      else case check_update_date today obj_in of
        Inl e \<Rightarrow> (Inl e, s)
      | Inr _ \<Rightarrow>
         (case flush_booking s db_obj obj_in of
            Inl e \<Rightarrow> (Inl e, s)
          | Inr _ \<Rightarrow>
             (case validate_relations s (target_cafe_id db_obj obj_in)
                     (target_tables_ids db_obj obj_in) (target_slots_ids db_obj obj_in) of
                Inl e \<Rightarrow> (Inl e, s)
              | Inr _ \<Rightarrow>
                 (case insert_units (others db_obj s) (fresh_units db_obj obj_in) of
                    Inl e \<Rightarrow> (Inl e, s)
                  | Inr us \<Rightarrow>
                     (Inr (refresh ((written s db_obj obj_in)\<lparr> units := us \<rparr>) (obj_id db_obj)
                             (setattrs (row db_obj) obj_in)),
                      (written s db_obj obj_in)\<lparr> units := us \<rparr>)))))"
proof (cases "flush_booking s db_obj obj_in")
  case (Inl e)
  then show ?thesis
    unfolding update_with_validation_def Let_def using assms
    by (simp split: sum.splits)
next
  case (Inr s1)
  then have s1: "s1 = written s db_obj obj_in" by (simp add: flush_booking_Inr)
  have u: "units (written s db_obj obj_in) = units s" by (simp add: written_def)
  show ?thesis
    unfolding update_with_validation_def Let_def case_target_cafe case_target_date
      fresh_units_def others_def target_tables_ids_def target_slots_ids_def
    using assms Inr
    by (simp add: s1 u validate_relations_written split: sum.splits)
qed

text \<open>
  C9 (no availability check on update). \<open>update_with_validation\<close> never raises the
  \<open>Occupied\<close> error. When its guards and its validation of the relations pass and the
  new selection has a (table, slot, date) of a unit of another booking that holds it,
  the call fails with the integrity error of the unique constraint at the flush, and the
  database is as it was.
\<close>

theorem update_skips_availability_check:
  "fst (update_with_validation today s db_obj obj_in) \<noteq> Inl (ValueError Occupied) \<and>
   (today \<le> b_booking_date (row db_obj) \<and> b_status (row db_obj) \<noteq> DONE \<and>
    check_update_date today obj_in = Inr () \<and>
    \<not> null_in_not_null obj_in \<and>
    (\<forall>c. attr (u_cafe_id obj_in) = Some c \<longrightarrow> c = b_cafe_id (row db_obj) \<or> c \<in> cafes s) \<and>
    (u_tables_id obj_in \<noteq> None \<or> u_slots_id obj_in \<noteq> None) \<and>
    validate_relations s (target_cafe_id db_obj obj_in) (target_tables_ids db_obj obj_in)
       (target_slots_ids db_obj obj_in) = Inr () \<and>
    (\<exists>u \<in> set (units s). booking_id u \<noteq> obj_id db_obj \<and> holds s u \<and>
        table_id u \<in> set (target_tables_ids db_obj obj_in) \<and>
        slot_id u \<in> set (target_slots_ids db_obj obj_in) \<and>
        booking_date u = target_booking_date db_obj obj_in) \<longrightarrow>
      update_with_validation today s db_obj obj_in = (Inl IntegrityError, s))"
proof (intro conjI impI)
  have c: "check_update_date today obj_in \<noteq> Inl (ValueError Occupied)"
    by (simp add: check_update_date_def split: option.splits)
  have f: "flush_booking s db_obj obj_in \<noteq> Inl (ValueError Occupied)"
    by (simp add: flush_booking_Inl)
  have i: "insert_units us new \<noteq> Inl (ValueError Occupied)" for us new
    using insert_units_result[of us new] by auto
  show "fst (update_with_validation today s db_obj obj_in) \<noteq> Inl (ValueError Occupied)"
  proof (cases "u_tables_id obj_in \<noteq> None \<or> u_slots_id obj_in \<noteq> None")
    case True
    show ?thesis
      unfolding update_with_selection[OF True]
      using c f i validate_relations_not_occupied
      by (auto split: sum.splits)
  next
    case False
    then have n: "u_tables_id obj_in = None" "u_slots_id obj_in = None" by simp_all
    show ?thesis
      unfolding update_without_selection[OF n]
      using c f by (auto split: sum.splits)
  qed
next
  assume a: "today \<le> b_booking_date (row db_obj) \<and> b_status (row db_obj) \<noteq> DONE \<and>
    check_update_date today obj_in = Inr () \<and>
    \<not> null_in_not_null obj_in \<and>
    (\<forall>c. attr (u_cafe_id obj_in) = Some c \<longrightarrow> c = b_cafe_id (row db_obj) \<or> c \<in> cafes s) \<and>
    (u_tables_id obj_in \<noteq> None \<or> u_slots_id obj_in \<noteq> None) \<and>
    validate_relations s (target_cafe_id db_obj obj_in) (target_tables_ids db_obj obj_in)
       (target_slots_ids db_obj obj_in) = Inr () \<and>
    (\<exists>u \<in> set (units s). booking_id u \<noteq> obj_id db_obj \<and> holds s u \<and>
        table_id u \<in> set (target_tables_ids db_obj obj_in) \<and>
        slot_id u \<in> set (target_slots_ids db_obj obj_in) \<and>
        booking_date u = target_booking_date db_obj obj_in)"
  then have sel: "u_tables_id obj_in \<noteq> None \<or> u_slots_id obj_in \<noteq> None" by blast
  from a obtain u where u: "u \<in> set (units s)" "booking_id u \<noteq> obj_id db_obj"
      "table_id u \<in> set (target_tables_ids db_obj obj_in)"
      "slot_id u \<in> set (target_slots_ids db_obj obj_in)"
      "booking_date u = target_booking_date db_obj obj_in"
    by blast
  have f: "flush_booking s db_obj obj_in = Inr (written s db_obj obj_in)"
    using a by (simp add: flush_booking_Inr)
  have "atom u \<in> set (map atom (others db_obj s))"
    using u(1,2) by (simp add: others_def)
  moreover have "atom u \<in> set (map atom (fresh_units db_obj obj_in))"
    unfolding fresh_units_def new_units_atom_set using u(3-5) by (auto simp: atom_def)
  ultimately have "insert_units (others db_obj s) (fresh_units db_obj obj_in) \<noteq>
      Inr (others db_obj s @ fresh_units db_obj obj_in)"
    unfolding insert_units_Inr_iff by blast
  then have i: "insert_units (others db_obj s) (fresh_units db_obj obj_in) = Inl IntegrityError"
    using insert_units_result by blast
  show "update_with_validation today s db_obj obj_in = (Inl IntegrityError, s)"
    unfolding update_with_selection[OF sel] using a f i by simp
qed

lemma ex_store2_reached:
  "create_with_validation 50 11 ex_store (ex_req [2] [2] 3) 8 =
     (Inr \<lparr> obj_id = 11, row = db_row (ex_req [2] [2] 3) 8, obj_tables = [2], obj_slots = [2] \<rparr>,
      ex_store2)"
  by (simp add: run_defs ex_defs ex_store2_def)

theorem update_skips_availability_check_witness:
  "(\<exists>u \<in> set (units ex_store2). booking_id u \<noteq> obj_id ex_obj \<and> holds ex_store2 u \<and>
      table_id u = 2 \<and> slot_id u = 2 \<and> booking_date u = 100) \<and>
   validate_relations ex_store2 1 [2] [2] = Inr () \<and>
   update_with_validation 50 ex_store2 ex_obj
       (no_patch\<lparr> u_tables_id := Some [2], u_slots_id := Some [2] \<rparr>) =
     (Inl IntegrityError, ex_store2) \<and>
   create_with_validation 50 12 ex_store2 (ex_req [2] [2] 3) 7 =
     (Inl (ValueError Occupied), ex_store2)"
proof -
  let ?p = "no_patch\<lparr> u_tables_id := Some [2], u_slots_id := Some [2] \<rparr>"
  have t: "target_cafe_id ex_obj ?p = 1" "target_tables_ids ex_obj ?p = [2]"
    "target_slots_ids ex_obj ?p = [2]" "target_booking_date ex_obj ?p = 100"
    by (simp_all add: target_cafe_id_def target_tables_ids_def target_slots_ids_def
        target_booking_date_def list_or_def attr_def ex_defs)
  have c: "\<exists>u \<in> set (units ex_store2). booking_id u \<noteq> obj_id ex_obj \<and> holds ex_store2 u \<and>
      table_id u = 2 \<and> slot_id u = 2 \<and> booking_date u = 100"
    by (simp add: ex_store2_def ex_defs holds_def db_row_def)
  have v: "validate_relations ex_store2 1 [2] [2] = Inr ()"
    by (simp add: validate_relations_def table_ok_def slot_ok_def ex_store2_def ex_defs)
  have g: "50 \<le> b_booking_date (row ex_obj) \<and> b_status (row ex_obj) \<noteq> DONE \<and>
    check_update_date 50 ?p = Inr () \<and> \<not> null_in_not_null ?p \<and>
    (\<forall>c. attr (u_cafe_id ?p) = Some c \<longrightarrow> c = b_cafe_id (row ex_obj) \<or> c \<in> cafes ex_store2) \<and>
    (u_tables_id ?p \<noteq> None \<or> u_slots_id ?p \<noteq> None)"
    by (simp add: ex_defs check_update_date_def null_in_not_null_def attr_def)
  have k: "create_with_validation 50 12 ex_store2 (ex_req [2] [2] 3) 7 =
     (Inl (ValueError Occupied), ex_store2)"
    by (simp add: run_defs ex_defs ex_store2_def)
  have "update_with_validation 50 ex_store2 ex_obj ?p = (Inl IntegrityError, ex_store2)"
    using update_skips_availability_check[of 50 ex_store2 ex_obj ?p, THEN conjunct2] g c v
    unfolding t by simp
  then show ?thesis using c v k by blast
qed

text \<open>
  C10 (date-only updates desynchronize units). Let the patch set \<open>booking_date\<close> to \<open>d\<close>
  and leave \<open>tables_id\<close> and \<open>slots_id\<close> alone. The call returns when the booking is
  neither past nor DONE, \<open>d\<close> is not past and the flush accepts the row. When it returns,
  the booking row has the date \<open>d\<close> and the unit table is untouched: every unit of
  the booking that had the old date, when \<open>d\<close> is another date, now has a date that is
  not its booking's.
\<close>

theorem date_only_update_desynchronizes:
  assumes "u_booking_date obj_in = Some (Some d)"
    and "u_tables_id obj_in = None" and "u_slots_id obj_in = None"
  shows "(today \<le> b_booking_date (row db_obj) \<and> b_status (row db_obj) \<noteq> DONE \<and> today \<le> d \<and>
      \<not> null_in_not_null obj_in \<and>
      (\<forall>c. u_cafe_id obj_in = Some (Some c) \<longrightarrow> c = b_cafe_id (row db_obj) \<or> c \<in> cafes s) \<longrightarrow>
        (\<exists>b s'. update_with_validation today s db_obj obj_in = (Inr b, s'))) \<and>
     (\<forall>b s'. update_with_validation today s db_obj obj_in = (Inr b, s') \<longrightarrow>
        today \<le> d \<and>
        bookings s' (obj_id db_obj) = Some (row b) \<and> b_booking_date (row b) = d \<and>
        units s' = units s \<and>
        (\<forall>u \<in> set (units s'). booking_id u = obj_id db_obj \<and>
            booking_date u = b_booking_date (row db_obj) \<and> d \<noteq> b_booking_date (row db_obj) \<longrightarrow>
              (\<exists>r. bookings s' (booking_id u) = Some r \<and> booking_date u \<noteq> b_booking_date r)))"
proof (intro conjI allI impI ballI)
  assume "today \<le> b_booking_date (row db_obj) \<and> b_status (row db_obj) \<noteq> DONE \<and> today \<le> d \<and>
      \<not> null_in_not_null obj_in \<and>
      (\<forall>c. u_cafe_id obj_in = Some (Some c) \<longrightarrow> c = b_cafe_id (row db_obj) \<or> c \<in> cafes s)"
  then show "\<exists>b s'. update_with_validation today s db_obj obj_in = (Inr b, s')"
    unfolding update_without_selection[OF assms(2,3)]
    by (auto simp: check_update_date_def assms(1) flush_booking_def attr_def
        validate_booking_date_def split: sum.splits option.splits)
next
  fix b s' assume u: "update_with_validation today s db_obj obj_in = (Inr b, s')"
  then have b: "b = refresh s' (obj_id db_obj) (setattrs (row db_obj) obj_in)"
    and s': "s' = written s db_obj obj_in"
    and c: "check_update_date today obj_in = Inr ()"
    unfolding update_Inr_iff using assms(2,3) by simp_all
  have r: "row b = setattrs (row db_obj) obj_in" using b by (simp add: refresh_def)
  show "today \<le> d"
    using c by (simp add: check_update_date_def assms(1) validate_booking_date_def split: if_splits)
  show k: "bookings s' (obj_id db_obj) = Some (row b)"
    by (simp add: s' r written_def)
  show e: "b_booking_date (row b) = d"
    by (simp add: r setattrs_def attr_def assms(1))
  show "units s' = units s" by (simp add: s' written_def)
  show "\<exists>r. bookings s' (booking_id u) = Some r \<and> booking_date u \<noteq> b_booking_date r"
    if "u \<in> set (units s')"
      "booking_id u = obj_id db_obj \<and> booking_date u = b_booking_date (row db_obj) \<and>
       d \<noteq> b_booking_date (row db_obj)" for u
    using that k e by auto
qed


theorem date_only_update_desynchronizes_witness:
  "u_booking_date (no_patch\<lparr> u_booking_date := Some (Some 120) \<rparr>) = Some (Some 120) \<and>
   u_tables_id (no_patch\<lparr> u_booking_date := Some (Some 120) \<rparr>) = None \<and>
   u_slots_id (no_patch\<lparr> u_booking_date := Some (Some 120) \<rparr>) = None \<and>
   update_with_validation 50 ex_store ex_obj (no_patch\<lparr> u_booking_date := Some (Some 120) \<rparr>) =
     (Inr (ex_obj\<lparr> row := ex_b1\<lparr> b_booking_date := 120 \<rparr> \<rparr>),
      ex_store\<lparr> bookings := [10 \<mapsto> ex_b1\<lparr> b_booking_date := 120 \<rparr>] \<rparr>) \<and>
   units (ex_store\<lparr> bookings := [10 \<mapsto> ex_b1\<lparr> b_booking_date := 120 \<rparr>] \<rparr>) = [ex_unit] \<and>
   booking_id ex_unit = 10 \<and> booking_date ex_unit = 100 \<and>
   check_tables_availability (ex_store\<lparr> bookings := [10 \<mapsto> ex_b1\<lparr> b_booking_date := 120 \<rparr>] \<rparr>)
     1 [1] [1] 120 None = Inr True"
proof -
  let ?p = "no_patch\<lparr> u_booking_date := Some (Some 120) \<rparr>"
  have h: "u_booking_date ?p = Some (Some 120)" "u_tables_id ?p = None" "u_slots_id ?p = None"
    by (simp_all add: no_patch_def)
  have e: "update_with_validation 50 ex_store ex_obj ?p =
     (Inr (ex_obj\<lparr> row := ex_b1\<lparr> b_booking_date := 120 \<rparr> \<rparr>),
      ex_store\<lparr> bookings := [10 \<mapsto> ex_b1\<lparr> b_booking_date := 120 \<rparr>] \<rparr>)"
    by (simp add: run_defs ex_defs)
  have u: "units (ex_store\<lparr> bookings := [10 \<mapsto> ex_b1\<lparr> b_booking_date := 120 \<rparr>] \<rparr>) = [ex_unit]"
    "booking_id ex_unit = 10" "booking_date ex_unit = 100"
    by (simp_all add: ex_defs)
  have a: "check_tables_availability (ex_store\<lparr> bookings := [10 \<mapsto> ex_b1\<lparr> b_booking_date := 120 \<rparr>] \<rparr>)
     1 [1] [1] 120 None = Inr True"
    by (simp add: run_defs ex_defs)
  show ?thesis
    using date_only_update_desynchronizes[OF h, of 50 ex_obj ex_store] h e u a by simp
qed


text \<open>
  C3 (cancellation frees capacity), as the code has it. Let a unit of a CANCELED booking
  be in the unit table, on a database that satisfies the schema constraint, and let a
  request ask for exactly its table, slot and date. The availability check passes (the
  unit does not count), yet \<open>create_with_validation\<close> never returns a booking: when
  the checks of the contract pass, the flush fails on \<open>uq_reservation_atom\<close> and the
  database is as it was. The claim's success does not hold on the code.
\<close>

theorem canceled_units_block_creation:
  assumes "uq_reservation_atom (units s)" and "u \<in> set (units s)"
    and "bookings s (booking_id u) = Some r" and "b_status r = CANCELED"
    and "c_tables_id obj_in = [table_id u]" and "c_slots_id obj_in = [slot_id u]"
    and "c_booking_date obj_in = booking_date u"
  shows "check_tables_availability s (c_cafe_id obj_in) (c_tables_id obj_in) (c_slots_id obj_in)
           (c_booking_date obj_in) None = Inr True \<and>
         (\<forall>b s'. create_with_validation today new_id s obj_in uid \<noteq> (Inr b, s')) \<and>
         (first_failed_check today s obj_in = None \<longrightarrow>
            create_with_validation today new_id s obj_in uid = (Inl IntegrityError, s))"
proof (intro conjI allI impI)
  have inj: "inj_on atom (set (units s))"
    using assms(1) by (simp add: uq_reservation_atom_def distinct_map)
  have "\<not> conflicting_unit s None (table_id u) (slot_id u) (booking_date u)"
  proof
    assume "conflicting_unit s None (table_id u) (slot_id u) (booking_date u)"
    then obtain v where v: "v \<in> set (units s)" "atom v = atom u" "holds s v"
      by (auto simp: conflicting_unit_def atom_def)
    then have "v = u" using inj assms(2) by (auto dest: inj_onD)
    then show False using v(3) assms(3,4) by (simp add: holds_def)
  qed
  then show "check_tables_availability s (c_cafe_id obj_in) (c_tables_id obj_in)
      (c_slots_id obj_in) (c_booking_date obj_in) None = Inr True"
    unfolding assms(5-7) check_tables_availability_uq[OF assms(1)]
    by (simp add: existing_units_empty)
next
  fix b s'
  show "create_with_validation today new_id s obj_in uid \<noteq> (Inr b, s')"
    by (rule existing_atom_blocks_creation[OF assms(2)]) (simp_all add: assms(5-7))
next
  assume "first_failed_check today s obj_in = None"
  then have "create_with_validation today new_id s obj_in uid = (Inl IntegrityError, s) \<or>
         (\<exists>b s'. create_with_validation today new_id s obj_in uid = (Inr b, s'))"
    by (rule create_after_checks[OF assms(1)])
  moreover have "create_with_validation today new_id s obj_in uid \<noteq> (Inr b, s')" for b s'
    by (rule existing_atom_blocks_creation[OF assms(2)]) (simp_all add: assms(5-7))
  ultimately show "create_with_validation today new_id s obj_in uid = (Inl IntegrityError, s)"
    by blast
qed

theorem canceled_units_block_creation_witness:
  "update_with_validation 50 ex_store ex_obj (no_patch\<lparr> u_status := Some (Some CANCELED) \<rparr>) =
     (Inr (ex_obj\<lparr> row := ex_b1\<lparr> b_status := CANCELED \<rparr> \<rparr>), canceled_store) \<and>
   uq_reservation_atom (units canceled_store) \<and> ex_unit \<in> set (units canceled_store) \<and>
   bookings canceled_store (booking_id ex_unit) = Some (ex_b1\<lparr> b_status := CANCELED \<rparr>) \<and>
   c_tables_id (ex_req [1] [1] 2) = [table_id ex_unit] \<and>
   c_slots_id (ex_req [1] [1] 2) = [slot_id ex_unit] \<and>
   c_booking_date (ex_req [1] [1] 2) = booking_date ex_unit \<and>
   first_failed_check 50 canceled_store (ex_req [1] [1] 2) = None \<and>
   check_tables_availability canceled_store 1 [1] [1] 100 None = Inr True \<and>
   create_with_validation 50 11 canceled_store (ex_req [1] [1] 2) 8 =
     (Inl IntegrityError, canceled_store)"
proof -
  have up: "update_with_validation 50 ex_store ex_obj (no_patch\<lparr> u_status := Some (Some CANCELED) \<rparr>) =
     (Inr (ex_obj\<lparr> row := ex_b1\<lparr> b_status := CANCELED \<rparr> \<rparr>), canceled_store)"
    by (simp add: run_defs ex_defs canceled_store_def)
  have h: "uq_reservation_atom (units canceled_store)" "ex_unit \<in> set (units canceled_store)"
    "bookings canceled_store (booking_id ex_unit) = Some (ex_b1\<lparr> b_status := CANCELED \<rparr>)"
    "b_status (ex_b1\<lparr> b_status := CANCELED \<rparr>) = CANCELED"
    "c_tables_id (ex_req [1] [1] 2) = [table_id ex_unit]"
    "c_slots_id (ex_req [1] [1] 2) = [slot_id ex_unit]"
    "c_booking_date (ex_req [1] [1] 2) = booking_date ex_unit"
    by (simp_all add: canceled_store_def ex_defs uq_reservation_atom_def)
  have f: "first_failed_check 50 canceled_store (ex_req [1] [1] 2) = None"
    by (simp add: first_failed_check_def canceled_store_def ex_defs table_ok_def slot_ok_def
        seats_of_def conflicting_unit_def holds_def)
  have a: "check_tables_availability canceled_store 1 [1] [1] 100 None = Inr True"
    by (simp add: run_defs ex_defs canceled_store_def)
  have k: "create_with_validation 50 11 canceled_store (ex_req [1] [1] 2) 8 =
     (Inl IntegrityError, canceled_store)"
    using canceled_units_block_creation[OF h, of 50 11 8] f by blast
  show ?thesis
    using up h(1,2,3,5,6,7) f a k by blast
qed


end
